theory Spec2Isabelle
  imports Complex_Main
begin

section \<open>Python values and library operations used by the converter\<close>

text \<open>
  The program is the script \<^verbatim>\<open>scripts/convert_kmz_to_lots.py\<close>. Python \<^verbatim>\<open>str\<close> values are
  modelled as \<^typ>\<open>string\<close>, one \<^typ>\<open>char\<close> per code point (code points below 256).
  Python \<^verbatim>\<open>float\<close> values are modelled by the real numbers they denote (no NaN, no
  infinities); the arithmetic of the coordinate transform is followed, operation by
  operation, by an explicit rounding function \<open>rnd\<close>, so that both exact arithmetic
  (\<open>rnd = id\<close>) and IEEE rounding are instances. Exceptions are values of type \<open>error\<close>,
  and a function that can raise returns \<open>error + 'a\<close>.
\<close>

datatype error =
    ValueError_NoKml
  | ValueError_Float string
  | ValueError_EmptySequence
  | KeyError string
  | UnicodeDecodeError
  | ParseError

text \<open>\<^verbatim>\<open>str.isspace\<close> on one character, for code points below 256.\<close>

definition is_space :: "char \<Rightarrow> bool" where
  "is_space c = (of_char c \<in> {9::nat, 10, 11, 12, 13, 28, 29, 30, 31, 32, 133, 160})"

text \<open>\<^verbatim>\<open>s.strip()\<close>: whitespace removed at both ends.\<close>

definition strip :: "string \<Rightarrow> string" where
  "strip s = rev (dropWhile is_space (rev (dropWhile is_space s)))"

text \<open>\<^verbatim>\<open>s.split()\<close>: the maximal runs of non-whitespace characters, in order.\<close>

fun words_acc :: "string \<Rightarrow> string \<Rightarrow> string list" where
  "words_acc cur [] = (if cur = [] then [] else [cur])"
| "words_acc cur (c # cs) =
     (if is_space c then (if cur = [] then words_acc [] cs else cur # words_acc [] cs)
      else words_acc (cur @ [c]) cs)"

definition py_split :: "string \<Rightarrow> string list" where
  "py_split s = words_acc [] s"

text \<open>\<^verbatim>\<open>s.split(sep)\<close> for a one-character separator: always at least one part.\<close>

fun split_on :: "char \<Rightarrow> string \<Rightarrow> string list" where
  "split_on sep [] = [[]]"
| "split_on sep (c # cs) =
     (if c = sep then [] # split_on sep cs
      else (c # hd (split_on sep cs)) # tl (split_on sep cs))"

text \<open>\<^verbatim>\<open>s.endswith(suffix)\<close>, \<^verbatim>\<open>sub in s\<close> and \<^verbatim>\<open>s.upper()\<close> (ASCII letters; other characters
  are left as they are).\<close>

definition endswith :: "string \<Rightarrow> string \<Rightarrow> bool" where
  "endswith s suffix = (length suffix \<le> length s \<and> drop (length s - length suffix) s = suffix)"

fun startswith :: "string \<Rightarrow> string \<Rightarrow> bool" where
  "startswith s [] = True"
| "startswith [] (p # ps) = False"
| "startswith (c # cs) (p # ps) = (c = p \<and> startswith cs ps)"

fun contains :: "string \<Rightarrow> string \<Rightarrow> bool" where
  "contains sub [] = (sub = [])"
| "contains sub (c # cs) = (startswith (c # cs) sub \<or> contains sub cs)"

definition upper_char :: "char \<Rightarrow> char" where
  "upper_char c =
     (if 97 \<le> (of_char c :: nat) \<and> (of_char c :: nat) \<le> 122 then char_of (of_char c - 32 :: nat) else c)"

definition upper :: "string \<Rightarrow> string" where
  "upper s = map upper_char s"

text \<open>
  Decimal text of a natural number (\<^verbatim>\<open>str(n)\<close>, \<^verbatim>\<open>f"{n}"\<close>) and the format \<^verbatim>\<open>f"{n:03d}"\<close>:
  zero-padded on the left to width 3, longer numbers unchanged.
\<close>

definition digit_char :: "nat \<Rightarrow> char" where
  "digit_char d = char_of (48 + d)"

function str_nat :: "nat \<Rightarrow> string" where
  "str_nat n = (if n < 10 then [digit_char n] else str_nat (n div 10) @ [digit_char (n mod 10)])"
  by pat_completeness auto
termination
  by (relation "measure (\<lambda>n. n)") auto

declare str_nat.simps [simp del]

definition fmt_03d :: "nat \<Rightarrow> string" where
  "fmt_03d n = replicate (3 - length (str_nat n)) CHR ''0'' @ str_nat n"

text \<open>
  \<^verbatim>\<open>float(s)\<close> is a parameter \<open>fl :: string \<Rightarrow> real option\<close> of the functions that call it
  (\<open>None\<close> when Python raises \<^verbatim>\<open>ValueError\<close>), so that what is proved holds for every
  behaviour of \<^verbatim>\<open>float\<close>. For the concrete inputs of the examples, \<open>float_dec\<close> reads the
  plain decimal numerals \<^verbatim>\<open>[+-]digits[.digits]\<close>, \<^verbatim>\<open>[+-]digits.\<close> and \<^verbatim>\<open>[+-].digits\<close> to
  their exact value and rejects every other string. It agrees with \<^verbatim>\<open>float\<close> on these
  numerals, up to the rounding to a double, and on the empty string and on strings of
  letters, which \<^verbatim>\<open>float\<close> rejects; the further forms that \<^verbatim>\<open>float\<close> accepts (exponents,
  \<^verbatim>\<open>inf\<close>, \<^verbatim>\<open>nan\<close>, underscores, surrounding whitespace) do not occur in the examples.
\<close>

definition is_digit :: "char \<Rightarrow> bool" where
  "is_digit c = (48 \<le> (of_char c :: nat) \<and> (of_char c :: nat) \<le> 57)"

definition digit_val :: "char \<Rightarrow> nat" where
  "digit_val c = of_char c - 48"

definition dec_val :: "string \<Rightarrow> nat" where
  "dec_val s = foldl (\<lambda>a c. 10 * a + digit_val c) 0 s"

definition float_dec :: "string \<Rightarrow> real option" where
  "float_dec s =
     (let neg = (s \<noteq> [] \<and> hd s = CHR ''-'');
          body = (if s \<noteq> [] \<and> (hd s = CHR ''-'' \<or> hd s = CHR ''+'') then tl s else s);
          ip = takeWhile (\<lambda>c. c \<noteq> CHR ''.'') body;
          fp = drop (Suc (length ip)) body
      in if (ip = [] \<and> fp = []) \<or> \<not> list_all is_digit ip \<or> \<not> list_all is_digit fp then None
         else let v = real (dec_val ip) + real (dec_val fp) / 10 ^ length fp
              in Some (if neg then - v else v))"

text \<open>\<^verbatim>\<open>min(xs)\<close> and \<^verbatim>\<open>max(xs)\<close>: \<^verbatim>\<open>ValueError\<close> on an empty list.\<close>

fun py_min :: "real list \<Rightarrow> error + real" where
  "py_min [] = Inl ValueError_EmptySequence"
| "py_min (x # xs) = Inr (foldl min x xs)"

fun py_max :: "real list \<Rightarrow> error + real" where
  "py_max [] = Inl ValueError_EmptySequence"
| "py_max (x # xs) = Inr (foldl max x xs)"

text \<open>\<^verbatim>\<open>round(x, ndigits)\<close>: to the nearest multiple of \<open>10 ^ - ndigits\<close>, ties to the even one.\<close>

definition py_round :: "real \<Rightarrow> nat \<Rightarrow> real" where
  "py_round x ndigits =
     (let s = x * 10 ^ ndigits; f = \<lfloor>s\<rfloor>; r = s - of_int f
      in (if r < 1 / 2 then of_int f
          else if 1 / 2 < r then of_int (f + 1)
          else if even f then of_int f else of_int (f + 1)) / 10 ^ ndigits)"

section \<open>Constants of the script\<close>

text \<open>
  A decimal literal denotes its decimal value, and \<^verbatim>\<open>METERS_PER_DEG_LON\<close> is the exact value of
  its defining expression; the doubles that Python holds differ from these reals by less than
  \<open>10\<^sup>-\<^sup>1\<^sup>0\<close>.
\<close>

definition PHARR_LAT :: real where
  "PHARR_LAT = 26.06669701044433"

definition PHARR_LON :: real where
  "PHARR_LON = - 98.20517760083658"

definition METERS_PER_DEG_LAT :: real where
  "METERS_PER_DEG_LAT = 111320"

definition METERS_PER_DEG_LON :: real where
  "METERS_PER_DEG_LON = METERS_PER_DEG_LAT * cos (PHARR_LAT * pi / 180)"

record layer_config =
  cfg_layer :: string
  cfg_type :: string
  cfg_geometry :: string
  cfg_filter :: "(string \<Rightarrow> bool) option"
  cfg_enabled :: bool

text \<open>The filter of \<^verbatim>\<open>FeatureLayer50\<close>:
  \<^verbatim>\<open>lambda name: any(f'FASE {i}' in name.upper() for i in [1, 2])\<close>.\<close>

definition phase_filter :: "string \<Rightarrow> bool" where
  "phase_filter name = list_ex (\<lambda>i. contains (''FASE '' @ str_nat i) (upper name)) [1, 2]"

text \<open>\<^verbatim>\<open>LAYER_CONFIG\<close>, a dict in insertion order.\<close>

definition LAYER_CONFIG :: "(string \<times> layer_config) list" where
  "LAYER_CONFIG =
    [(''FeatureLayer50'', \<lparr>cfg_layer = ''phases'', cfg_type = ''inovus_phase'',
        cfg_geometry = ''Polygon'', cfg_filter = Some phase_filter, cfg_enabled = True\<rparr>),
     (''FeatureLayer27'', \<lparr>cfg_layer = ''industrialParks'', cfg_type = ''industrial_park'',
        cfg_geometry = ''Polygon'', cfg_filter = None, cfg_enabled = True\<rparr>),
     (''FeatureLayer58'', \<lparr>cfg_layer = ''urbanFootprint'', cfg_type = ''urban'',
        cfg_geometry = ''Polygon'', cfg_filter = None, cfg_enabled = True\<rparr>),
     (''FeatureLayer17'', \<lparr>cfg_layer = ''electricity'', cfg_type = ''substation'',
        cfg_geometry = ''Point'', cfg_filter = None, cfg_enabled = False\<rparr>),
     (''FeatureLayer18'', \<lparr>cfg_layer = ''electricity'', cfg_type = ''distribution_line'',
        cfg_geometry = ''LineString'', cfg_filter = None, cfg_enabled = False\<rparr>),
     (''FeatureLayer19'', \<lparr>cfg_layer = ''electricity'', cfg_type = ''transmission_line'',
        cfg_geometry = ''LineString'', cfg_filter = None, cfg_enabled = False\<rparr>)]"

record style =
  fill :: string
  stroke :: string
  strokeWidth :: real

definition LAYER_STYLES :: "(string \<times> style) list" where
  "LAYER_STYLES =
    [(''phases'', \<lparr>fill = ''rgba(127, 223, 255, 0.3)'', stroke = ''rgba(127, 223, 255, 0.7)'',
        strokeWidth = 2\<rparr>),
     (''industrialParks'', \<lparr>fill = ''rgba(215, 187, 158, 0.25)'',
        stroke = ''rgba(255, 178, 115, 0.7)'', strokeWidth = 1\<rparr>),
     (''urbanFootprint'', \<lparr>fill = ''rgba(100, 100, 100, 0.2)'',
        stroke = ''rgba(150, 150, 150, 0.4)'', strokeWidth = 0.5\<rparr>),
     (''electricity'', \<lparr>fill = ''rgba(255, 223, 127, 0.9)'', stroke = ''rgba(0, 255, 85, 0.6)'',
        strokeWidth = 2\<rparr>)]"

section \<open>Archive reader\<close>

text \<open>
  An opened zip archive is its list of entries (name and content) in directory order;
  \<^verbatim>\<open>z.namelist()\<close> lists the names in that order and \<^verbatim>\<open>z.read(name)\<close> finds the content by
  name (the last entry of that name, as the name table of \<^verbatim>\<open>zipfile\<close> does). The decoder
  \<^verbatim>\<open>bytes.decode('utf-8')\<close> is the parameter \<open>decode\<close>.
\<close>

definition zip_read :: "(string \<times> 'b) list \<Rightarrow> string \<Rightarrow> error + 'b" where
  "zip_read z name = (case map_of (rev z) name of None \<Rightarrow> Inl (KeyError name) | Some b \<Rightarrow> Inr b)"

definition extract_kml_from_kmz ::
  "('b \<Rightarrow> string option) \<Rightarrow> (string \<times> 'b) list \<Rightarrow> error + string" where
  "extract_kml_from_kmz decode z =
     (let kml_files = filter (\<lambda>f. endswith f ''.kml'') (map fst z) in
      if kml_files = [] then Inl ValueError_NoKml
      else
        let kml_name = (if ''doc.kml'' \<in> set kml_files then ''doc.kml'' else kml_files ! 0) in
        case zip_read z kml_name of
          Inl e \<Rightarrow> Inl e
        | Inr b \<Rightarrow> (case decode b of None \<Rightarrow> Inl UnicodeDecodeError | Some t \<Rightarrow> Inr t))"

section \<open>Element trees\<close>

text \<open>
  An \<^verbatim>\<open>xml.etree.ElementTree.Element\<close>: tag (with the namespace in braces), attributes,
  text (\<^verbatim>\<open>None\<close> or a string) and children. \<open>iter\<close> is \<^verbatim>\<open>Element.iter(tag)\<close> (the element and
  all its descendants in document order), \<open>findall\<close> and \<open>find_child\<close> are \<^verbatim>\<open>findall\<close> and
  \<^verbatim>\<open>find\<close> with a path of one step (children only).
\<close>

datatype element =
  Element (tag: string) (attrib: "(string \<times> string) list") (el_text: "string option")
    (children: "element list")

definition kml :: "string \<Rightarrow> string" where
  "kml name = ''{http://www.opengis.net/kml/2.2}'' @ name"

fun preorder :: "element \<Rightarrow> element list" where
  "preorder (Element t a x cs) = Element t a x cs # concat (map preorder cs)"

definition iter :: "element \<Rightarrow> string \<Rightarrow> element list" where
  "iter e t = filter (\<lambda>x. tag x = t) (preorder e)"

definition findall :: "element \<Rightarrow> string \<Rightarrow> element list" where
  "findall e t = filter (\<lambda>x. tag x = t) (children e)"

definition find_child :: "element \<Rightarrow> string \<Rightarrow> element option" where
  "find_child e t = (case findall e t of [] \<Rightarrow> None | x # _ \<Rightarrow> Some x)"

text \<open>
  \<^verbatim>\<open>polygon.find('.//kml:outerBoundaryIs/kml:LinearRing/kml:coordinates', KML_NS)\<close>: the first
  \<^verbatim>\<open>coordinates\<close> child of a \<^verbatim>\<open>LinearRing\<close> child of an \<^verbatim>\<open>outerBoundaryIs\<close> descendant.
\<close>

definition find_outer :: "element \<Rightarrow> element option" where
  "find_outer polygon =
     (case concat (map (\<lambda>a. concat (map (\<lambda>b. findall b (kml ''coordinates''))
                                          (findall a (kml ''LinearRing''))))
                       (filter (\<lambda>x. tag x = kml ''outerBoundaryIs'')
                               (concat (map preorder (children polygon))))) of
        [] \<Rightarrow> None
      | c # _ \<Rightarrow> Some c)"

definition get_text :: "element \<Rightarrow> string \<Rightarrow> string" where
  "get_text element path =
     (case find_child element path of
        None \<Rightarrow> ''''
      | Some el \<Rightarrow> (case el_text el of None \<Rightarrow> '''' | Some t \<Rightarrow> if t = [] then '''' else strip t))"

section \<open>Coordinate parsing and geometry extraction\<close>

type_synonym coord = "real list"

text \<open>
  \<^verbatim>\<open>parse_coordinates\<close>: the loop over \<^verbatim>\<open>coord_string.strip().split()\<close>. A token with at least
  two comma-separated parts has its first two parts converted by \<^verbatim>\<open>float\<close>, which may raise;
  the pair is appended as \<^verbatim>\<open>[lat, lon]\<close>.
\<close>

fun parse_coordinates_loop ::
  "(string \<Rightarrow> real option) \<Rightarrow> coord list \<Rightarrow> string list \<Rightarrow> error + coord list" where
  "parse_coordinates_loop fl coords [] = Inr coords"
| "parse_coordinates_loop fl coords (point # rest) =
     (let parts = split_on CHR '','' point in
      if 2 \<le> length parts then
        (case fl (parts ! 0) of
           None \<Rightarrow> Inl (ValueError_Float (parts ! 0))
         | Some lon \<Rightarrow>
             (case fl (parts ! 1) of
                None \<Rightarrow> Inl (ValueError_Float (parts ! 1))
              | Some lat \<Rightarrow> parse_coordinates_loop fl (coords @ [[lat, lon]]) rest))
      else parse_coordinates_loop fl coords rest)"

definition parse_coordinates :: "(string \<Rightarrow> real option) \<Rightarrow> string \<Rightarrow> error + coord list" where
  "parse_coordinates fl coord_string = parse_coordinates_loop fl [] (py_split (strip coord_string))"

record geom =
  coordinates :: "coord list"
  geometry :: string

fun parse_polygon_loop ::
  "(string \<Rightarrow> real option) \<Rightarrow> geom list \<Rightarrow> element list \<Rightarrow> error + geom list" where
  "parse_polygon_loop fl polygons [] = Inr polygons"
| "parse_polygon_loop fl polygons (polygon # rest) =
     (case find_outer polygon of
        None \<Rightarrow> parse_polygon_loop fl polygons rest
      | Some outer \<Rightarrow>
          (case el_text outer of
             None \<Rightarrow> parse_polygon_loop fl polygons rest
           | Some t \<Rightarrow>
               if t = [] then parse_polygon_loop fl polygons rest
               else
                 (case parse_coordinates fl t of
                    Inl e \<Rightarrow> Inl e
                  | Inr coords \<Rightarrow>
                      if 3 \<le> length coords
                      then parse_polygon_loop fl
                             (polygons @ [\<lparr>coordinates = coords, geometry = ''Polygon''\<rparr>]) rest
                      else parse_polygon_loop fl polygons rest)))"

definition parse_polygon :: "(string \<Rightarrow> real option) \<Rightarrow> element \<Rightarrow> error + geom list" where
  "parse_polygon fl placemark = parse_polygon_loop fl [] (iter placemark (kml ''Polygon''))"

fun parse_linestring_loop ::
  "(string \<Rightarrow> real option) \<Rightarrow> geom list \<Rightarrow> element list \<Rightarrow> error + geom list" where
  "parse_linestring_loop fl lines [] = Inr lines"
| "parse_linestring_loop fl lines (linestring # rest) =
     (case find_child linestring (kml ''coordinates'') of
        None \<Rightarrow> parse_linestring_loop fl lines rest
      | Some coords_el \<Rightarrow>
          (case el_text coords_el of
             None \<Rightarrow> parse_linestring_loop fl lines rest
           | Some t \<Rightarrow>
               if t = [] then parse_linestring_loop fl lines rest
               else
                 (case parse_coordinates fl t of
                    Inl e \<Rightarrow> Inl e
                  | Inr coords \<Rightarrow>
                      if 2 \<le> length coords
                      then parse_linestring_loop fl
                             (lines @ [\<lparr>coordinates = coords, geometry = ''LineString''\<rparr>]) rest
                      else parse_linestring_loop fl lines rest)))"

definition parse_linestring :: "(string \<Rightarrow> real option) \<Rightarrow> element \<Rightarrow> error + geom list" where
  "parse_linestring fl placemark =
     parse_linestring_loop fl [] (iter placemark (kml ''LineString''))"

fun parse_point_loop ::
  "(string \<Rightarrow> real option) \<Rightarrow> geom list \<Rightarrow> element list \<Rightarrow> error + geom list" where
  "parse_point_loop fl points [] = Inr points"
| "parse_point_loop fl points (point # rest) =
     (case find_child point (kml ''coordinates'') of
        None \<Rightarrow> parse_point_loop fl points rest
      | Some coords_el \<Rightarrow>
          (case el_text coords_el of
             None \<Rightarrow> parse_point_loop fl points rest
           | Some t \<Rightarrow>
               if t = [] then parse_point_loop fl points rest
               else
                 (case parse_coordinates fl t of
                    Inl e \<Rightarrow> Inl e
                  | Inr coords \<Rightarrow>
                      if coords \<noteq> []
                      then parse_point_loop fl
                             (points @ [\<lparr>coordinates = [coords ! 0], geometry = ''Point''\<rparr>]) rest
                      else parse_point_loop fl points rest)))"

definition parse_point :: "(string \<Rightarrow> real option) \<Rightarrow> element \<Rightarrow> error + geom list" where
  "parse_point fl placemark = parse_point_loop fl [] (iter placemark (kml ''Point''))"

section \<open>Layer extraction\<close>

text \<open>
  An extracted feature. The legacy extractor builds features without the keys
  \<^verbatim>\<open>'layer'\<close> and \<^verbatim>\<open>'type'\<close>: they are \<open>None\<close> there.
\<close>

record feature =
  f_name :: string
  f_description :: string
  f_polygons :: "geom list"
  f_layer :: "string option"
  f_type :: "string option"

fun extract_layer_loop ::
  "(string \<Rightarrow> real option) \<Rightarrow> layer_config \<Rightarrow> feature list \<Rightarrow> element list \<Rightarrow> error + feature list"
  where
  "extract_layer_loop fl config features [] = Inr features"
| "extract_layer_loop fl config features (placemark # rest) =
     (let name = get_text placemark (kml ''name'');
          description = get_text placemark (kml ''description'')
      in if (case cfg_filter config of None \<Rightarrow> False | Some name_filter \<Rightarrow> \<not> name_filter name)
         then extract_layer_loop fl config features rest
         else
           (case (if cfg_geometry config = ''Polygon'' then parse_polygon fl placemark
                  else if cfg_geometry config = ''LineString'' then parse_linestring fl placemark
                  else if cfg_geometry config = ''Point'' then parse_point fl placemark
                  else Inr []) of
              Inl e \<Rightarrow> Inl e
            | Inr geometries \<Rightarrow>
                if geometries \<noteq> []
                then extract_layer_loop fl config
                       (features @ [\<lparr>f_name = name, f_description = description,
                                     f_polygons = geometries, f_layer = Some (cfg_layer config),
                                     f_type = Some (cfg_type config)\<rparr>]) rest
                else extract_layer_loop fl config features rest))"

definition extract_layer ::
  "(string \<Rightarrow> real option) \<Rightarrow> element \<Rightarrow> string \<Rightarrow> layer_config \<Rightarrow> error + feature list" where
  "extract_layer fl kml_root folder_id config =
     (case List.find (\<lambda>f. map_of (attrib f) ''id'' = Some folder_id) (iter kml_root (kml ''Folder'')) of
        None \<Rightarrow> Inr []
      | Some folder \<Rightarrow> extract_layer_loop fl config [] (findall folder (kml ''Placemark'')))"

fun parse_kml_by_layers_loop ::
  "(string \<Rightarrow> real option) \<Rightarrow> element \<Rightarrow> string list option \<Rightarrow> feature list \<Rightarrow>
   (string \<times> layer_config) list \<Rightarrow> error + feature list" where
  "parse_kml_by_layers_loop fl kml_root layer_filter all_features [] = Inr all_features"
| "parse_kml_by_layers_loop fl kml_root layer_filter all_features ((folder_id, config) # rest) =
     (if (case layer_filter of None \<Rightarrow> False | Some lf \<Rightarrow> lf \<noteq> [] \<and> cfg_layer config \<notin> set lf)
      then parse_kml_by_layers_loop fl kml_root layer_filter all_features rest
      else
        (case extract_layer fl kml_root folder_id config of
           Inl e \<Rightarrow> Inl e
         | Inr features \<Rightarrow>
             parse_kml_by_layers_loop fl kml_root layer_filter (all_features @ features) rest))"

text \<open>\<^verbatim>\<open>ET.fromstring\<close> is the parameter \<open>fromstring\<close> (\<open>None\<close> when it raises \<^verbatim>\<open>ParseError\<close>).\<close>

definition parse_kml_by_layers ::
  "(string \<Rightarrow> real option) \<Rightarrow> (string \<Rightarrow> element option) \<Rightarrow> string \<Rightarrow> string list option \<Rightarrow>
   error + feature list" where
  "parse_kml_by_layers fl fromstring kml_content layer_filter =
     (case fromstring kml_content of
        None \<Rightarrow> Inl ParseError
      | Some kml_root \<Rightarrow> parse_kml_by_layers_loop fl kml_root layer_filter [] LAYER_CONFIG)"

fun parse_kml_placemarks_loop ::
  "(string \<Rightarrow> real option) \<Rightarrow> feature list \<Rightarrow> element list \<Rightarrow> error + feature list" where
  "parse_kml_placemarks_loop fl lots [] = Inr lots"
| "parse_kml_placemarks_loop fl lots (placemark # rest) =
     (let name = get_text placemark (kml ''name'');
          description = get_text placemark (kml ''description'')
      in case parse_polygon fl placemark of
           Inl e \<Rightarrow> Inl e
         | Inr polygons \<Rightarrow>
             if polygons \<noteq> []
             then parse_kml_placemarks_loop fl
                    (lots @ [\<lparr>f_name = name, f_description = description, f_polygons = polygons,
                              f_layer = None, f_type = None\<rparr>]) rest
             else parse_kml_placemarks_loop fl lots rest)"

definition parse_kml_placemarks ::
  "(string \<Rightarrow> real option) \<Rightarrow> (string \<Rightarrow> element option) \<Rightarrow> string \<Rightarrow> error + feature list" where
  "parse_kml_placemarks fl fromstring kml_content =
     (case fromstring kml_content of
        None \<Rightarrow> Inl ParseError
      | Some kml_root \<Rightarrow> parse_kml_placemarks_loop fl [] (iter kml_root (kml ''Placemark'')))"

section \<open>Output building\<close>

record lot =
  lot_id :: string
  lot_name :: string
  lot_comment :: string
  lot_layer :: string
  lot_type :: "string option"
  lot_region_id :: "string option"
  lot_polygons :: "geom list"
  lot_region_params :: "string option"
  lot_conversion_rule_ids :: "string option"
  lot_priority :: nat

text \<open>
  The first loop of \<^verbatim>\<open>build_lots_json\<close>, with the dict \<^verbatim>\<open>layer_counts\<close> as a map. The index
  \<^verbatim>\<open>i\<close> of \<^verbatim>\<open>enumerate\<close> is not used by the loop body.
\<close>

fun build_lots_loop :: "(string \<rightharpoonup> nat) \<Rightarrow> lot list \<Rightarrow> feature list \<Rightarrow> lot list" where
  "build_lots_loop layer_counts lots [] = lots"
| "build_lots_loop layer_counts lots (raw # rest) =
     (let layer = (case f_layer raw of None \<Rightarrow> ''lots'' | Some l \<Rightarrow> l);
          lot_type = f_type raw;
          n = (case layer_counts layer of None \<Rightarrow> 0 | Some k \<Rightarrow> k) + 1;
          layer_counts' = layer_counts(layer \<mapsto> n);
          prefix = (if layer \<noteq> [] then take 4 layer else ''lot'');
          new_id = prefix @ ''_'' @ fmt_03d n
      in build_lots_loop layer_counts'
           (lots @ [\<lparr>lot_id = new_id, lot_name = f_name raw, lot_comment = f_description raw,
                     lot_layer = layer, lot_type = lot_type, lot_region_id = None,
                     lot_polygons = f_polygons raw, lot_region_params = None,
                     lot_conversion_rule_ids = None, lot_priority = 0\<rparr>]) rest)"

record layer_meta =
  enabled :: bool
  layer_style :: "style option"

record transform_block =
  origin_lat :: real
  origin_lon :: real
  meters_per_deg_lat :: real
  meters_per_deg_lon :: real
  transform_notes :: string

text \<open>
  The output document. \<open>layers\<close> is a Python dict, which keeps and serialises its keys in
  insertion order: an association list in that order.
\<close>

record document =
  version :: string
  generated :: string
  source_kmz :: string
  transform :: transform_block
  layers :: "(string \<times> layer_meta) list"
  lots :: "lot list"

text \<open>
  The metadata of one layer: \<^verbatim>\<open>enabled\<close> of the first entry of \<^verbatim>\<open>LAYER_CONFIG\<close> with that
  layer name (\<^verbatim>\<open>True\<close> when there is none) and the style of \<^verbatim>\<open>LAYER_STYLES\<close> (\<open>None\<close> for the
  empty dict).
\<close>

definition layer_meta_of :: "string \<Rightarrow> layer_meta" where
  "layer_meta_of layer_name =
     \<lparr>enabled = (case List.find (\<lambda>kv. cfg_layer (snd kv) = layer_name) LAYER_CONFIG of
                   None \<Rightarrow> True
                 | Some kv \<Rightarrow> cfg_enabled (snd kv)),
      layer_style = map_of LAYER_STYLES layer_name\<rparr>"

text \<open>
  \<^verbatim>\<open>build_lots_json\<close>. Three things come from outside the function and are parameters:
  \<open>set_iter xs\<close>, the order in which Python iterates over \<^verbatim>\<open>set(xs)\<close> (some enumeration
  without repetition of the elements of \<open>xs\<close>; for strings it depends on the hash seed of
  the process); \<open>path_name\<close>, which is \<^verbatim>\<open>Path(p).name\<close>; and \<open>today\<close>, the text of
  \<^verbatim>\<open>datetime.now().strftime("%Y-%m-%d")\<close>. The argument \<^verbatim>\<open>layer_filter\<close> is not used by the
  function and is left out.
\<close>

definition build_lots_json ::
  "(string list \<Rightarrow> string list) \<Rightarrow> (string \<Rightarrow> string) \<Rightarrow> string \<Rightarrow> feature list \<Rightarrow> string \<Rightarrow>
   document" where
  "build_lots_json set_iter path_name today raw_lots source =
     (let lots = build_lots_loop Map.empty [] raw_lots;
          layers_meta = map (\<lambda>layer_name. (layer_name, layer_meta_of layer_name))
                            (set_iter (map lot_layer lots))
      in \<lparr>version = ''2.0'',
          generated = today,
          source_kmz = path_name source,
          transform = \<lparr>origin_lat = PHARR_LAT, origin_lon = PHARR_LON,
                        meters_per_deg_lat = METERS_PER_DEG_LAT,
                        meters_per_deg_lon = py_round METERS_PER_DEG_LON 2,
                        transform_notes = ''PHARR POE is coordinate origin (0,0). Same as bundle transform.''\<rparr>,
          layers = layers_meta,
          lots = lots\<rparr>)"

section \<open>Coordinate transform and statistics\<close>

text \<open>
  The transform of \<^verbatim>\<open>compute_stats\<close>, \<^verbatim>\<open>(lat - PHARR_LAT) * METERS_PER_DEG_LAT\<close> and
  \<^verbatim>\<open>(lon - PHARR_LON) * METERS_PER_DEG_LON\<close>, with the result of each floating-point
  operation rounded by \<open>rnd\<close>.
\<close>

definition to_local_y :: "(real \<Rightarrow> real) \<Rightarrow> real \<Rightarrow> real" where
  "to_local_y rnd lat = rnd (rnd (lat - PHARR_LAT) * METERS_PER_DEG_LAT)"

definition to_local_x :: "(real \<Rightarrow> real) \<Rightarrow> real \<Rightarrow> real" where
  "to_local_x rnd lon = rnd (rnd (lon - PHARR_LON) * METERS_PER_DEG_LON)"

record stats =
  num_lots :: nat
  num_polygons :: nat
  by_layer :: "string \<rightharpoonup> nat"
  by_geometry :: "string \<rightharpoonup> nat"
  lat_range :: "real \<times> real"
  lon_range :: "real \<times> real"
  y_range_m :: "real \<times> real"
  x_range_m :: "real \<times> real"

definition count_key :: "(string \<rightharpoonup> nat) \<Rightarrow> string \<Rightarrow> (string \<rightharpoonup> nat)" where
  "count_key m k = m(k \<mapsto> (case m k of None \<Rightarrow> 0 | Some n \<Rightarrow> n) + 1)"

text \<open>The coordinates that pass \<^verbatim>\<open>isinstance(coord, list) and len(coord) >= 2\<close>, in order.\<close>

definition stat_coords :: "lot list \<Rightarrow> coord list" where
  "stat_coords ls =
     filter (\<lambda>coord. 2 \<le> length coord)
       (concat (map (\<lambda>lot. concat (map coordinates (lot_polygons lot))) ls))"

definition compute_stats :: "(real \<Rightarrow> real) \<Rightarrow> document \<Rightarrow> error + stats" where
  "compute_stats rnd lots_json =
     (let ls = lots lots_json;
          total_polygons = sum_list (map (\<lambda>lot. length (lot_polygons lot)) ls);
          by_layer = foldl (\<lambda>m lot. count_key m (lot_layer lot)) Map.empty ls;
          by_geometry = foldl (\<lambda>m lot. foldl (\<lambda>m poly. count_key m (geometry poly)) m (lot_polygons lot))
                          [''Polygon'' \<mapsto> 0, ''LineString'' \<mapsto> 0, ''Point'' \<mapsto> 0] ls;
          all_lats = map (\<lambda>coord. coord ! 0) (stat_coords ls);
          all_lons = map (\<lambda>coord. coord ! 1) (stat_coords ls)
      in if all_lats \<noteq> [] then
           (case py_min all_lats of Inl e \<Rightarrow> Inl e | Inr lat_lo \<Rightarrow>
            case py_max all_lats of Inl e \<Rightarrow> Inl e | Inr lat_hi \<Rightarrow>
            case py_min all_lons of Inl e \<Rightarrow> Inl e | Inr lon_lo \<Rightarrow>
            case py_max all_lons of Inl e \<Rightarrow> Inl e | Inr lon_hi \<Rightarrow>
              Inr \<lparr>num_lots = length ls, num_polygons = total_polygons, by_layer = by_layer,
                   by_geometry = by_geometry,
                   lat_range = (lat_lo, lat_hi), lon_range = (lon_lo, lon_hi),
                   y_range_m = (to_local_y rnd lat_lo, to_local_y rnd lat_hi),
                   x_range_m = (to_local_x rnd lon_lo, to_local_x rnd lon_hi)\<rparr>)
         else
           Inr \<lparr>num_lots = length ls, num_polygons = total_polygons, by_layer = by_layer,
                by_geometry = by_geometry,
                lat_range = (0, 0), lon_range = (0, 0), y_range_m = (0, 0), x_range_m = (0, 0)\<rparr>)"

section \<open>The run of the script\<close>

text \<open>
  What a run takes from the Python runtime and libraries: the UTF-8 decoder, the XML
  parser, \<^verbatim>\<open>float\<close>, \<^verbatim>\<open>Path(p).name\<close>, the date of the day, the iteration order of sets and
  the rounding of floating-point results.
\<close>

record 'b runtime =
  rt_decode :: "'b \<Rightarrow> string option"
  rt_fromstring :: "string \<Rightarrow> element option"
  rt_float :: "string \<Rightarrow> real option"
  rt_path_name :: "string \<Rightarrow> string"
  rt_today :: string
  rt_set_iter :: "string list \<Rightarrow> string list"
  rt_round :: "real \<Rightarrow> real"

text \<open>The command line: the input path, \<^verbatim>\<open>--layers\<close> and \<^verbatim>\<open>--legacy\<close>.\<close>

record args =
  arg_input :: string
  arg_layers :: "string option"
  arg_legacy :: bool

text \<open>
  \<^verbatim>\<open>main\<close> without \<^verbatim>\<open>--list-layers\<close>, on the entries \<open>z\<close> of the archive at the input path:
  the document that is written, or the exception that ends the run before anything is
  written. The statistics are computed, and printed, before the document is written.
\<close>

definition extract_features ::
  "'b runtime \<Rightarrow> args \<Rightarrow> string \<Rightarrow> error + feature list" where
  "extract_features rt a kml_content =
     (let layer_filter =
            (case arg_layers a of
               None \<Rightarrow> None
             | Some l \<Rightarrow> if l = [] then None else Some (map strip (split_on CHR '','' l)))
      in if arg_legacy a then parse_kml_placemarks (rt_float rt) (rt_fromstring rt) kml_content
         else parse_kml_by_layers (rt_float rt) (rt_fromstring rt) kml_content layer_filter)"

definition convert :: "'b runtime \<Rightarrow> (string \<times> 'b) list \<Rightarrow> args \<Rightarrow> error + document" where
  "convert rt z a =
     (case extract_kml_from_kmz (rt_decode rt) z of
        Inl e \<Rightarrow> Inl e
      | Inr kml_content \<Rightarrow>
          (case extract_features rt a kml_content of
             Inl e \<Rightarrow> Inl e
           | Inr raw_lots \<Rightarrow>
               let lots_json = build_lots_json (rt_set_iter rt) (rt_path_name rt) (rt_today rt)
                                 raw_lots (arg_input a)
               in (case compute_stats (rt_round rt) lots_json of
                     Inl e \<Rightarrow> Inl e
                   | Inr st \<Rightarrow> Inr lots_json)))"

section \<open>Notions used to state the properties\<close>

text \<open>
  The definitions of this section are not functions of the script: they name what the
  properties below speak about.
\<close>

text \<open>A token has at least two comma-separated fields; its first two fields are accepted
  by \<^verbatim>\<open>float\<close>; the coordinate \<^verbatim>\<open>[lat, lon]\<close> read from its first two fields.\<close>

definition has_two_fields :: "string \<Rightarrow> bool" where
  "has_two_fields t = (2 \<le> length (split_on CHR '','' t))"

definition numeric_token :: "(string \<Rightarrow> real option) \<Rightarrow> string \<Rightarrow> bool" where
  "numeric_token fl t =
     (fl (split_on CHR '','' t ! 0) \<noteq> None \<and> fl (split_on CHR '','' t ! 1) \<noteq> None)"

definition token_coord :: "(string \<Rightarrow> real option) \<Rightarrow> string \<Rightarrow> coord" where
  "token_coord fl t = [the (fl (split_on CHR '','' t ! 1)), the (fl (split_on CHR '','' t ! 0))]"

text \<open>A token \<^verbatim>\<open>lon,lat\<close> or \<^verbatim>\<open>lon,lat,alt\<close> as text.\<close>

definition render_token :: "string \<times> string \<times> string option \<Rightarrow> string" where
  "render_token t =
     (case t of (lon, lat, alt) \<Rightarrow>
        lon @ '','' @ lat @ (case alt of None \<Rightarrow> [] | Some a \<Rightarrow> '','' @ a))"

text \<open>The outer-boundary coordinate texts that \<^verbatim>\<open>parse_polygon\<close> locates in a placemark, one
  for each \<^verbatim>\<open>Polygon\<close> element that has a non-empty one, in document order.\<close>

definition ring_texts :: "element \<Rightarrow> string list" where
  "ring_texts placemark =
     concat (map (\<lambda>polygon.
                    case find_outer polygon of
                      None \<Rightarrow> []
                    | Some outer \<Rightarrow>
                        (case el_text outer of None \<Rightarrow> [] | Some t \<Rightarrow> if t = [] then [] else [t]))
                 (iter placemark (kml ''Polygon'')))"

text \<open>All the texts parsed in order, up to the first one that raises.\<close>

fun parse_all :: "(string \<Rightarrow> real option) \<Rightarrow> string list \<Rightarrow> error + coord list list" where
  "parse_all fl [] = Inr []"
| "parse_all fl (t # ts) =
     (case parse_coordinates fl t of
        Inl e \<Rightarrow> Inl e
      | Inr c \<Rightarrow> (case parse_all fl ts of Inl e \<Rightarrow> Inl e | Inr cs \<Rightarrow> Inr (c # cs)))"

text \<open>The text of an entry, or the exception of the decoder.\<close>

definition decoded :: "('b \<Rightarrow> string option) \<Rightarrow> 'b \<Rightarrow> error + string" where
  "decoded decode b = (case decode b of None \<Rightarrow> Inl UnicodeDecodeError | Some t \<Rightarrow> Inr t)"

text \<open>All the coordinates of a document, and the invariant of extracted features: at least
  one geometry, and at least one coordinate in each geometry.\<close>

definition all_coords :: "document \<Rightarrow> coord list" where
  "all_coords doc = concat (map (\<lambda>lot. concat (map coordinates (lot_polygons lot))) (lots doc))"

definition feature_ok :: "feature \<Rightarrow> bool" where
  "feature_ok f = (f_polygons f \<noteq> [] \<and> list_all (\<lambda>g. coordinates g \<noteq> []) (f_polygons f))"

text \<open>The layer name that \<^verbatim>\<open>build_lots_json\<close> reads from a feature, the prefix of its
  identifiers, and the position of feature \<open>i\<close> among the features of its layer, counted
  from 1 in the order of the input.\<close>

definition layer_name_of :: "feature \<Rightarrow> string" where
  "layer_name_of raw = (case f_layer raw of None \<Rightarrow> ''lots'' | Some l \<Rightarrow> l)"

definition id_prefix :: "string \<Rightarrow> string" where
  "id_prefix layer = (if layer \<noteq> [] then take 4 layer else ''lot'')"

definition seq_no :: "feature list \<Rightarrow> nat \<Rightarrow> nat" where
  "seq_no raw_lots i =
     length (filter (\<lambda>r. layer_name_of r = layer_name_of (raw_lots ! i)) (take (Suc i) raw_lots))"

text \<open>
  A rounding function with the relative error of IEEE double precision, round to nearest
  (unit roundoff \<open>2 ^ - 53\<close>, no overflow or underflow). The identity is one.
\<close>

definition rounding :: "(real \<Rightarrow> real) \<Rightarrow> bool" where
  "rounding rnd = (\<forall>x. \<bar>rnd x - x\<bar> \<le> \<bar>x\<bar> / 2 ^ 53)"

text \<open>
  The inverse affine map in the words of the specification (the script has only the
  forward map): \<^verbatim>\<open>lat = y / metersPerDegreeLat + lat0\<close> and
  \<^verbatim>\<open>lon = x / metersPerDegreeLon + lon0\<close>, computed in floating point with the
  meters-per-degree value \<open>m\<close> that the inverting party holds.
\<close>

definition inverse_affine_lat :: "(real \<Rightarrow> real) \<Rightarrow> real \<Rightarrow> real \<Rightarrow> real" where
  "inverse_affine_lat rnd m y = rnd (rnd (y / m) + PHARR_LAT)"

definition inverse_affine_lon :: "(real \<Rightarrow> real) \<Rightarrow> real \<Rightarrow> real \<Rightarrow> real" where
  "inverse_affine_lon rnd m x = rnd (rnd (x / m) + PHARR_LON)"

text \<open>A set iteration order: every element once.\<close>

definition valid_set_iter :: "(string list \<Rightarrow> string list) \<Rightarrow> bool" where
  "valid_set_iter si = (\<forall>xs. distinct (si xs) \<and> set (si xs) = set xs)"

text \<open>The value of a counter in \<^verbatim>\<open>layer_counts\<close>, 0 for a missing key.\<close>

definition cnt :: "(string \<rightharpoonup> nat) \<Rightarrow> string \<Rightarrow> nat" where
  "cnt m l = (case m l of None \<Rightarrow> 0 | Some k \<Rightarrow> k)"

text \<open>The invariant together with the layer name lying in a given set.\<close>

definition feature_in :: "string set \<Rightarrow> feature \<Rightarrow> bool" where
  "feature_in L f = (feature_ok f \<and> layer_name_of f \<in> L)"

section \<open>Example inputs\<close>

text \<open>
  A polygon with one outer ring, a placemark with a name and one polygon, and three
  documents as element trees: one with a folder of the registry that holds a placemark
  with a ring of 3 points and a placemark with a ring of 2 points, one without folders,
  and one with two folders of the registry. In the example runtime the decoder returns
  the content of the entry as it is, the parser returns the given tree (the content of
  the entry stands for the markup of that tree), \<^verbatim>\<open>float\<close> reads plain decimals, nothing is
  rounded, and a set is iterated in the order of first occurrence.
\<close>

definition example_ring :: "string \<Rightarrow> element" where
  "example_ring t =
     Element (kml ''Polygon'') [] None
       [Element (kml ''outerBoundaryIs'') [] None
          [Element (kml ''LinearRing'') [] None
             [Element (kml ''coordinates'') [] (Some t) []]]]"

definition example_placemark :: "string \<Rightarrow> string \<Rightarrow> element" where
  "example_placemark name t =
     Element (kml ''Placemark'') [] None [Element (kml ''name'') [] (Some name) [], example_ring t]"

definition example_root :: element where
  "example_root =
     Element (kml ''kml'') [] None
       [Element (kml ''Document'') [] None
          [Element (kml ''Folder'') [(''id'', ''FeatureLayer27'')] None
             [example_placemark ''Parque A'' ''-98.20,26.07 -98.21,26.08 -98.20,26.08'',
              example_placemark ''Parque B'' ''-98.20,26.07 -98.21,26.08'']]]"

definition example_empty_root :: element where
  "example_empty_root = Element (kml ''kml'') [] None [Element (kml ''Document'') [] None []]"

definition example_runtime :: "element \<Rightarrow> string runtime" where
  "example_runtime tree =
     \<lparr>rt_decode = Some, rt_fromstring = (\<lambda>_. Some tree), rt_float = float_dec,
      rt_path_name = id, rt_today = ''2024-01-01'', rt_set_iter = remdups, rt_round = id\<rparr>"

definition example_args :: "bool \<Rightarrow> args" where
  "example_args legacy = \<lparr>arg_input = ''in.kmz'', arg_layers = None, arg_legacy = legacy\<rparr>"

definition example_feature :: "string option \<Rightarrow> feature" where
  "example_feature layer =
     \<lparr>f_name = ''Parque A'', f_description = '''',
      f_polygons = [\<lparr>coordinates = [[26.07, -98.20], [26.08, -98.21], [26.08, -98.20]],
                     geometry = ''Polygon''\<rparr>],
      f_layer = layer, f_type = (case layer of None \<Rightarrow> None | Some _ \<Rightarrow> Some ''industrial_park'')\<rparr>"

definition example_two_layers_root :: element where
  "example_two_layers_root =
     Element (kml ''kml'') [] None
       [Element (kml ''Document'') [] None
          [Element (kml ''Folder'') [(''id'', ''FeatureLayer27'')] None
             [example_placemark ''Parque A'' ''-98.20,26.07 -98.21,26.08 -98.20,26.08''],
           Element (kml ''Folder'') [(''id'', ''FeatureLayer58'')] None
             [example_placemark ''Parque A'' ''-98.20,26.07 -98.21,26.08 -98.20,26.08'']]]"

definition example_urban_feature :: feature where
  "example_urban_feature = (example_feature (Some ''urbanFootprint'')) \<lparr>f_type := Some ''urban''\<rparr>"

text \<open>A feature with one point, one degree of longitude east of the origin.\<close>

definition example_point_feature :: feature where
  "example_point_feature =
     \<lparr>f_name = ''Subestacion'', f_description = '''',
      f_polygons = [\<lparr>coordinates = [[PHARR_LAT, PHARR_LON + 1]], geometry = ''Point''\<rparr>],
      f_layer = Some ''electricity'', f_type = Some ''substation''\<rparr>"

text \<open>A document with two placemarks in one folder of the registry and one in another.\<close>

definition example_three_root :: element where
  "example_three_root =
     Element (kml ''kml'') [] None
       [Element (kml ''Document'') [] None
          [Element (kml ''Folder'') [(''id'', ''FeatureLayer27'')] None
             [example_placemark ''Parque A'' ''-98.20,26.07 -98.21,26.08 -98.20,26.08'',
              example_placemark ''Parque A'' ''-98.20,26.07 -98.21,26.08 -98.20,26.08''],
           Element (kml ''Folder'') [(''id'', ''FeatureLayer58'')] None
             [example_placemark ''Parque A'' ''-98.20,26.07 -98.21,26.08 -98.20,26.08'']]]"

section \<open>Coordinate text\<close>

subsection \<open>Splitting\<close>

lemma words_acc_trailing:
  "list_all is_space ws \<Longrightarrow> words_acc cur (s @ ws) = words_acc cur s"
proof (induction s arbitrary: cur)
  case Nil
  then show ?case by (induction ws arbitrary: cur) auto
next
  case (Cons c s)
  then show ?case by simp
qed

lemma words_acc_leading: "words_acc [] (dropWhile is_space s) = words_acc [] s"
  by (induction s) auto

lemma py_split_strip: "py_split (strip s) = py_split s"
proof -
  let ?t = "dropWhile is_space s"
  have "rev ?t = takeWhile is_space (rev ?t) @ dropWhile is_space (rev ?t)" by simp
  then have "?t = rev (dropWhile is_space (rev ?t)) @ rev (takeWhile is_space (rev ?t))"
    by (metis rev_append rev_rev_ident)
  moreover have "list_all is_space (rev (takeWhile is_space (rev ?t)))"
    by (simp add: list_all_iff) (meson set_takeWhileD)
  ultimately have "words_acc [] ?t = words_acc [] (rev (dropWhile is_space (rev ?t)))"
    by (metis words_acc_trailing)
  then show ?thesis by (simp add: py_split_def strip_def words_acc_leading)
qed

lemma split_on_nonempty: "split_on c s \<noteq> []"
  by (induction s) auto

lemma split_on_no_sep: "c \<notin> set a \<Longrightarrow> split_on c a = [a]"
  by (induction a) auto

lemma split_on_prefix: "c \<notin> set a \<Longrightarrow> split_on c (a @ c # r) = a # split_on c r"
  by (induction a) auto

lemma split_on_render:
  assumes "CHR '','' \<notin> set lon" "CHR '','' \<notin> set lat"
  shows "2 \<le> length (split_on CHR '','' (render_token (lon, lat, alt)))"
    and "split_on CHR '','' (render_token (lon, lat, alt)) ! 0 = lon"
    and "split_on CHR '','' (render_token (lon, lat, alt)) ! 1 = lat"
proof -
  have "\<exists>ps. split_on CHR '','' (render_token (lon, lat, alt)) = lon # lat # ps"
  proof (cases alt)
    case None
    then show ?thesis
      using assms by (simp add: render_token_def split_on_prefix split_on_no_sep)
  next
    case (Some a)
    then show ?thesis
      using assms by (simp add: render_token_def split_on_prefix)
  qed
  then obtain ps where "split_on CHR '','' (render_token (lon, lat, alt)) = lon # lat # ps" ..
  then show "2 \<le> length (split_on CHR '','' (render_token (lon, lat, alt)))"
    and "split_on CHR '','' (render_token (lon, lat, alt)) ! 0 = lon"
    and "split_on CHR '','' (render_token (lon, lat, alt)) ! 1 = lat"
    by simp_all
qed

subsection \<open>Tokens that are skipped, and tokens that raise\<close>

lemma parse_coordinates_loop_ok:
  "list_all (\<lambda>t. has_two_fields t \<longrightarrow> numeric_token fl t) ts \<Longrightarrow>
   parse_coordinates_loop fl acc ts = Inr (acc @ map (token_coord fl) (filter has_two_fields ts))"
  by (induction ts arbitrary: acc)
     (auto simp: has_two_fields_def numeric_token_def token_coord_def Let_def)

lemma parse_coordinates_loop_raises:
  "\<not> list_all (\<lambda>t. has_two_fields t \<longrightarrow> numeric_token fl t) ts \<Longrightarrow>
   \<exists>bad. parse_coordinates_loop fl acc ts = Inl (ValueError_Float bad)"
  by (induction ts arbitrary: acc)
     (auto simp: has_two_fields_def numeric_token_def Let_def split: option.splits)

text \<open>
  What the loop does, for every \<^verbatim>\<open>float\<close>: a token without a comma (fewer than two
  comma-separated fields) is skipped; when the first two fields of every other token are
  accepted by \<^verbatim>\<open>float\<close>, the coordinates of those tokens are returned in order; otherwise
  the \<^verbatim>\<open>ValueError\<close> of \<^verbatim>\<open>float\<close> is raised.
\<close>

lemma parse_coordinates_characterised:
  "(list_all (\<lambda>t. has_two_fields t \<longrightarrow> numeric_token fl t) (py_split s) \<longrightarrow>
      parse_coordinates fl s = Inr (map (token_coord fl) (filter has_two_fields (py_split s)))) \<and>
   (\<not> list_all (\<lambda>t. has_two_fields t \<longrightarrow> numeric_token fl t) (py_split s) \<longrightarrow>
      (\<exists>bad. parse_coordinates fl s = Inl (ValueError_Float bad)))"
  using parse_coordinates_loop_ok [of fl "py_split s" "[]"] parse_coordinates_loop_raises [of fl "py_split s" "[]"]
  by (simp add: parse_coordinates_def py_split_strip)

text \<open>
  Claim C3. The claim is that \<^verbatim>\<open>parse_coordinates\<close> never fails: a token with fewer than 2
  numeric fields is skipped and the other tokens are parsed. The code does so for a token
  without a comma, which the guard \<^verbatim>\<open>len(parts) >= 2\<close> skips (first text below). It does
  not for a token with a comma and fewer than 2 numeric fields: in the second text the
  token \<^verbatim>\<open>-98.21,\<close> passes the guard, \<^verbatim>\<open>float('')\<close> raises \<^verbatim>\<open>ValueError\<close>, and the coordinate of
  the first token is lost with the whole result.
\<close>

theorem parse_coordinates_raises_on_empty_field:
  "parse_coordinates float_dec ''-98.20,26.07 -98.21'' = Inr [[26.07, -98.20]] \<and>
   parse_coordinates float_dec ''-98.20,26.07 -98.21,'' = Inl (ValueError_Float [])"
  by (simp add: parse_coordinates_def strip_def py_split_def is_space_def float_dec_def
      is_digit_def dec_val_def digit_val_def)

subsection \<open>Order of the output\<close>

lemma parse_coordinates_loop_rendered:
  "list_all (\<lambda>(lon, lat, alt). CHR '','' \<notin> set lon \<and> CHR '','' \<notin> set lat \<and>
                              fl lon \<noteq> None \<and> fl lat \<noteq> None) toks \<Longrightarrow>
   parse_coordinates_loop fl acc (map render_token toks) =
   Inr (acc @ map (\<lambda>(lon, lat, alt). [the (fl lat), the (fl lon)]) toks)"
proof (induction toks arbitrary: acc)
  case Nil
  then show ?case by simp
next
  case (Cons t toks)
  obtain lon lat alt where t: "t = (lon, lat, alt)" by (cases t) auto
  from Cons.prems t have a: "CHR '','' \<notin> set lon" "CHR '','' \<notin> set lat"
    and n: "fl lon \<noteq> None" "fl lat \<noteq> None" and rest: "list_all (\<lambda>(lon, lat, alt). CHR '','' \<notin> set lon \<and> CHR '','' \<notin> set lat \<and>
                              fl lon \<noteq> None \<and> fl lat \<noteq> None) toks"
    by auto
  from n obtain x y where xy: "fl lon = Some x" "fl lat = Some y" by auto
  show ?case
    using split_on_render [OF a, of alt] Cons.IH [OF rest] xy t
    by (simp add: Let_def)
qed

text \<open>
  Claim C4. When the whitespace-separated tokens of a text are \<^verbatim>\<open>lon,lat\<close> or
  \<^verbatim>\<open>lon,lat,alt\<close> with numeric \<^verbatim>\<open>lon\<close> and \<^verbatim>\<open>lat\<close>, \<^verbatim>\<open>parse_coordinates\<close> returns, in the order
  of the tokens, the pairs \<^verbatim>\<open>[lat, lon]\<close>; the altitude is not read. The witness is the
  scenario of the specification.
\<close>

theorem parse_coordinates_swaps_lon_lat:
  assumes "py_split text = map render_token toks"
    and "list_all (\<lambda>(lon, lat, alt). CHR '','' \<notin> set lon \<and> CHR '','' \<notin> set lat \<and>
                                  fl lon \<noteq> None \<and> fl lat \<noteq> None) toks"
  shows "parse_coordinates fl text = Inr (map (\<lambda>(lon, lat, alt). [the (fl lat), the (fl lon)]) toks)"
  using parse_coordinates_loop_rendered [OF assms(2), of "[]"] assms(1)
  by (simp add: parse_coordinates_def py_split_strip)

theorem parse_coordinates_swaps_lon_lat_witness:
  "parse_coordinates float_dec ''-98.20,26.07 -98.21,26.08 -98.20,26.08'' =
     Inr [[26.07, -98.20], [26.08, -98.21], [26.08, -98.20]]"
proof -
  let ?toks = "[(''-98.20'', ''26.07'', None), (''-98.21'', ''26.08'', None),
                (''-98.20'', ''26.08'', None :: string option)]"
  have f: "float_dec ''-98.20'' = Some (-98.20)" "float_dec ''26.07'' = Some 26.07"
    "float_dec ''-98.21'' = Some (-98.21)" "float_dec ''26.08'' = Some 26.08"
    by (simp_all add: float_dec_def is_digit_def dec_val_def digit_val_def)
  have h1: "py_split ''-98.20,26.07 -98.21,26.08 -98.20,26.08'' = map render_token ?toks"
    by (simp add: py_split_def is_space_def render_token_def)
  have h2: "list_all (\<lambda>(lon, lat, alt). CHR '','' \<notin> set lon \<and> CHR '','' \<notin> set lat \<and>
                                  float_dec lon \<noteq> None \<and> float_dec lat \<noteq> None) ?toks"
    by (simp add: f del: not_None_eq)
  show ?thesis
    using parse_coordinates_swaps_lon_lat [OF h1 h2] by (simp add: f)
qed

section \<open>Polygon extraction\<close>

lemma parse_polygon_loop_eq:
  "parse_polygon_loop fl acc ps =
     (case parse_all fl (concat (map (\<lambda>polygon.
                    case find_outer polygon of
                      None \<Rightarrow> []
                    | Some outer \<Rightarrow>
                        (case el_text outer of None \<Rightarrow> [] | Some t \<Rightarrow> if t = [] then [] else [t])) ps)) of
        Inl e \<Rightarrow> Inl e
      | Inr rings \<Rightarrow>
          Inr (acc @ map (\<lambda>r. \<lparr>coordinates = r, geometry = ''Polygon''\<rparr>)
                         (filter (\<lambda>r. 3 \<le> length r) rings)))"
  by (induction ps arbitrary: acc) (auto split: option.splits sum.splits)

text \<open>
  Claim C5. \<^verbatim>\<open>parse_polygon\<close> parses the outer-boundary texts of the placemark in document
  order and returns, as polygons, exactly the parsed rings of at least 3 points (a ring
  of 2 points is dropped, a ring of 3 points is kept); when a text does not parse, the
  exception of \<^verbatim>\<open>parse_coordinates\<close> is raised. The witness is a placemark with a ring of 2
  points and a ring of 3 points.
\<close>

theorem parse_polygon_keeps_rings_of_three:
  "parse_polygon fl placemark =
     (case parse_all fl (ring_texts placemark) of
        Inl e \<Rightarrow> Inl e
      | Inr rings \<Rightarrow>
          Inr (map (\<lambda>r. \<lparr>coordinates = r, geometry = ''Polygon''\<rparr>)
                   (filter (\<lambda>r. 3 \<le> length r) rings)))"
  by (simp add: parse_polygon_def ring_texts_def parse_polygon_loop_eq split: sum.splits)

theorem parse_polygon_keeps_rings_of_three_witness:
  "parse_polygon float_dec
     (Element (kml ''Placemark'') [] None
        [Element (kml ''Polygon'') [] None
           [Element (kml ''outerBoundaryIs'') [] None
              [Element (kml ''LinearRing'') [] None
                 [Element (kml ''coordinates'') [] (Some ''1,2 3,4'') []]]],
         Element (kml ''Polygon'') [] None
           [Element (kml ''outerBoundaryIs'') [] None
              [Element (kml ''LinearRing'') [] None
                 [Element (kml ''coordinates'') [] (Some ''1,2 3,4 5,6'') []]]]])
   = Inr [\<lparr>coordinates = [[2, 1], [4, 3], [6, 5]], geometry = ''Polygon''\<rparr>]"
proof -
  let ?pm = "Element (kml ''Placemark'') [] None
        [Element (kml ''Polygon'') [] None
           [Element (kml ''outerBoundaryIs'') [] None
              [Element (kml ''LinearRing'') [] None
                 [Element (kml ''coordinates'') [] (Some ''1,2 3,4'') []]]],
         Element (kml ''Polygon'') [] None
           [Element (kml ''outerBoundaryIs'') [] None
              [Element (kml ''LinearRing'') [] None
                 [Element (kml ''coordinates'') [] (Some ''1,2 3,4 5,6'') []]]]]"
  have t: "ring_texts ?pm = [''1,2 3,4'', ''1,2 3,4 5,6'']"
    by (simp add: ring_texts_def iter_def find_outer_def findall_def kml_def)
  have p1: "parse_coordinates float_dec ''1,2 3,4'' = Inr [[2, 1], [4, 3]]"
    by (simp add: parse_coordinates_def strip_def py_split_def is_space_def float_dec_def
        is_digit_def dec_val_def digit_val_def)
  have p2: "parse_coordinates float_dec ''1,2 3,4 5,6'' = Inr [[2, 1], [4, 3], [6, 5]]"
    by (simp add: parse_coordinates_def strip_def py_split_def is_space_def float_dec_def
        is_digit_def dec_val_def digit_val_def)
  show ?thesis
    using parse_polygon_keeps_rings_of_three [of float_dec ?pm] by (simp add: t p1 p2)
qed

section \<open>Extracted features and assembled documents\<close>

subsection \<open>Every extracted feature has a geometry, every geometry a coordinate\<close>

lemma parse_polygon_loop_nonempty:
  "parse_polygon_loop fl acc ps = Inr gs \<Longrightarrow> list_all (\<lambda>g. coordinates g \<noteq> []) acc \<Longrightarrow>
   list_all (\<lambda>g. coordinates g \<noteq> []) gs"
proof (induction ps arbitrary: acc)
  case Nil
  then show ?case by simp
next
  case (Cons p ps)
  from Cons.prems show ?case
    by (auto split: option.splits if_splits sum.splits dest!: Cons.IH)
qed

lemma parse_linestring_loop_nonempty:
  "parse_linestring_loop fl acc ps = Inr gs \<Longrightarrow> list_all (\<lambda>g. coordinates g \<noteq> []) acc \<Longrightarrow>
   list_all (\<lambda>g. coordinates g \<noteq> []) gs"
proof (induction ps arbitrary: acc)
  case Nil
  then show ?case by simp
next
  case (Cons p ps)
  from Cons.prems show ?case
    by (auto split: option.splits if_splits sum.splits dest!: Cons.IH)
qed

lemma parse_point_loop_nonempty:
  "parse_point_loop fl acc ps = Inr gs \<Longrightarrow> list_all (\<lambda>g. coordinates g \<noteq> []) acc \<Longrightarrow>
   list_all (\<lambda>g. coordinates g \<noteq> []) gs"
proof (induction ps arbitrary: acc)
  case Nil
  then show ?case by simp
next
  case (Cons p ps)
  from Cons.prems show ?case
    by (auto split: option.splits if_splits sum.splits dest!: Cons.IH)
qed

lemma geometries_nonempty:
  assumes "(if cfg_geometry config = ''Polygon'' then parse_polygon fl placemark
            else if cfg_geometry config = ''LineString'' then parse_linestring fl placemark
            else if cfg_geometry config = ''Point'' then parse_point fl placemark
            else Inr []) = Inr gs"
  shows "list_all (\<lambda>g. coordinates g \<noteq> []) gs"
  using assms
    parse_polygon_loop_nonempty [of fl "[]" "iter placemark (kml ''Polygon'')" gs]
    parse_linestring_loop_nonempty [of fl "[]" "iter placemark (kml ''LineString'')" gs]
    parse_point_loop_nonempty [of fl "[]" "iter placemark (kml ''Point'')" gs]
  by (auto simp: parse_polygon_def parse_linestring_def parse_point_def split: if_splits)

lemma extract_layer_loop_ok:
  "list_all (feature_in L) acc \<Longrightarrow> cfg_layer config \<in> L \<Longrightarrow>
   extract_layer_loop fl config acc ps = Inr fs \<Longrightarrow> list_all (feature_in L) fs"
proof (induction ps arbitrary: acc)
  case Nil
  then show ?case by simp
next
  case (Cons p ps)
  show ?case
  proof (cases "case cfg_filter config of None \<Rightarrow> False
                | Some name_filter \<Rightarrow> \<not> name_filter (get_text p (kml ''name''))")
    case True
    with Cons.prems(3) have "extract_layer_loop fl config acc ps = Inr fs" by (simp add: Let_def)
    with Cons.prems(1,2) show ?thesis by (rule Cons.IH)
  next
    case False
    let ?g = "(if cfg_geometry config = ''Polygon'' then parse_polygon fl p
            else if cfg_geometry config = ''LineString'' then parse_linestring fl p
            else if cfg_geometry config = ''Point'' then parse_point fl p
            else Inr [])"
    from Cons.prems(3) False obtain gs where gs: "?g = Inr gs"
      by (cases ?g) (simp_all add: Let_def)
    have ok: "list_all (\<lambda>g. coordinates g \<noteq> []) gs" using gs by (rule geometries_nonempty)
    show ?thesis
    proof (cases "gs = []")
      case True
      with Cons.prems(3) False gs have "extract_layer_loop fl config acc ps = Inr fs"
        by (simp add: Let_def)
      with Cons.prems(1,2) show ?thesis by (rule Cons.IH)
    next
      case nonempty: False
      let ?f = "\<lparr>f_name = get_text p (kml ''name''), f_description = get_text p (kml ''description''),
                 f_polygons = gs, f_layer = Some (cfg_layer config), f_type = Some (cfg_type config)\<rparr>"
      have "feature_in L ?f"
        using ok nonempty Cons.prems(2) by (simp add: feature_in_def feature_ok_def layer_name_of_def)
      then have "list_all (feature_in L) (acc @ [?f])" using Cons.prems(1) by simp
      moreover have "extract_layer_loop fl config (acc @ [?f]) ps = Inr fs"
        using Cons.prems(3) False gs nonempty by (simp add: Let_def)
      ultimately show ?thesis using Cons.prems(2) by (intro Cons.IH)
    qed
  qed
qed

lemma extract_layer_ok:
  "extract_layer fl kml_root folder_id config = Inr fs \<Longrightarrow> cfg_layer config \<in> L \<Longrightarrow>
   list_all (feature_in L) fs"
  using extract_layer_loop_ok [of L "[]" config fl _ fs]
  by (auto simp: extract_layer_def split: option.splits)

lemma parse_kml_by_layers_loop_ok:
  "list_all (feature_in L) acc \<Longrightarrow> list_all (\<lambda>kv. cfg_layer (snd kv) \<in> L) cfgs \<Longrightarrow>
   parse_kml_by_layers_loop fl kml_root lf acc cfgs = Inr fs \<Longrightarrow> list_all (feature_in L) fs"
proof (induction cfgs arbitrary: acc)
  case Nil
  then show ?case by simp
next
  case (Cons c cfgs)
  obtain folder_id config where c: "c = (folder_id, config)" by (cases c) auto
  from Cons.prems(2) have inL: "cfg_layer config \<in> L"
    and rest: "list_all (\<lambda>kv. cfg_layer (snd kv) \<in> L) cfgs" by (simp_all add: c)
  show ?case
  proof (cases "case lf of None \<Rightarrow> False | Some l \<Rightarrow> l \<noteq> [] \<and> cfg_layer config \<notin> set l")
    case True
    with Cons.prems(3) have "parse_kml_by_layers_loop fl kml_root lf acc cfgs = Inr fs"
      unfolding c by simp
    with Cons.prems(1) rest show ?thesis by (rule Cons.IH)
  next
    case False
    from Cons.prems(3) False obtain features where
      f: "extract_layer fl kml_root folder_id config = Inr features"
      unfolding c by (cases "extract_layer fl kml_root folder_id config") simp_all
    have "list_all (feature_in L) (acc @ features)"
      using Cons.prems(1) extract_layer_ok [OF f inL] by simp
    moreover have "parse_kml_by_layers_loop fl kml_root lf (acc @ features) cfgs = Inr fs"
      using Cons.prems(3) False f unfolding c by simp
    ultimately show ?thesis using rest by (intro Cons.IH)
  qed
qed

lemma parse_kml_placemarks_loop_ok:
  "list_all (feature_in L) acc \<Longrightarrow> ''lots'' \<in> L \<Longrightarrow>
   parse_kml_placemarks_loop fl acc ps = Inr fs \<Longrightarrow> list_all (feature_in L) fs"
proof (induction ps arbitrary: acc)
  case Nil
  then show ?case by simp
next
  case (Cons p ps)
  from Cons.prems(3) obtain gs where gs: "parse_polygon fl p = Inr gs"
    by (cases "parse_polygon fl p") (simp_all add: Let_def)
  have ok: "list_all (\<lambda>g. coordinates g \<noteq> []) gs"
    using gs parse_polygon_loop_nonempty [of fl "[]" "iter p (kml ''Polygon'')" gs]
    by (simp add: parse_polygon_def)
  show ?case
  proof (cases "gs = []")
    case True
    with Cons.prems(3) gs have "parse_kml_placemarks_loop fl acc ps = Inr fs" by (simp add: Let_def)
    with Cons.prems(1,2) show ?thesis by (rule Cons.IH)
  next
    case False
    let ?f = "\<lparr>f_name = get_text p (kml ''name''), f_description = get_text p (kml ''description''),
               f_polygons = gs, f_layer = None, f_type = None\<rparr>"
    have "feature_in L ?f"
      using ok False Cons.prems(2) by (simp add: feature_in_def feature_ok_def layer_name_of_def)
    then have "list_all (feature_in L) (acc @ [?f])" using Cons.prems(1) by simp
    moreover have "parse_kml_placemarks_loop fl (acc @ [?f]) ps = Inr fs"
      using Cons.prems(3) gs False by (simp add: Let_def)
    ultimately show ?thesis using Cons.prems(2) by (intro Cons.IH)
  qed
qed

text \<open>The layer names of extracted features: those of the registry, and \<^verbatim>\<open>lots\<close> for the
  features of the legacy extractor.\<close>

lemma extract_features_in:
  assumes "extract_features rt a kml_content = Inr raw_lots"
  shows "list_all (feature_in (set (''lots'' # map (\<lambda>kv. cfg_layer (snd kv)) LAYER_CONFIG))) raw_lots"
proof -
  let ?L = "set (''lots'' # map (\<lambda>kv. cfg_layer (snd kv)) LAYER_CONFIG)"
  have c: "list_all (\<lambda>kv. cfg_layer (snd kv) \<in> ?L) LAYER_CONFIG" by (simp add: list_all_iff)
  have l: "''lots'' \<in> ?L" by simp
  have e: "list_all (feature_in ?L) []" by simp
  show ?thesis
  proof (cases "arg_legacy a")
    case True
    with assms obtain kml_root where
      "parse_kml_placemarks_loop (rt_float rt) [] (iter kml_root (kml ''Placemark'')) = Inr raw_lots"
      by (auto simp: extract_features_def parse_kml_placemarks_def Let_def split: option.splits)
    with e l show ?thesis by (rule parse_kml_placemarks_loop_ok)
  next
    case False
    with assms obtain kml_root lf where
      "parse_kml_by_layers_loop (rt_float rt) kml_root lf [] LAYER_CONFIG = Inr raw_lots"
      by (auto simp: extract_features_def parse_kml_by_layers_def Let_def split: option.splits)
    with e c show ?thesis by (rule parse_kml_by_layers_loop_ok)
  qed
qed

lemma extract_features_ok:
  "extract_features rt a kml_content = Inr raw_lots \<Longrightarrow> list_all feature_ok raw_lots"
  using extract_features_in [of rt a kml_content raw_lots]
  by (simp add: list_all_iff feature_in_def)

lemma extract_features_layers:
  "extract_features rt a kml_content = Inr raw_lots \<Longrightarrow>
   set (map layer_name_of raw_lots) \<subseteq> set (''lots'' # map (\<lambda>kv. cfg_layer (snd kv)) LAYER_CONFIG)"
  using extract_features_in [of rt a kml_content raw_lots]
  by (auto simp: list_all_iff feature_in_def)

lemma build_lots_loop_polygons:
  "map lot_polygons (build_lots_loop m acc raws) = map lot_polygons acc @ map f_polygons raws"
  by (induction raws arbitrary: m acc) (simp_all add: Let_def)

lemma build_lots_json_polygons:
  "map lot_polygons (lots (build_lots_json si pn today raw_lots src)) = map f_polygons raw_lots"
  by (simp add: build_lots_json_def Let_def build_lots_loop_polygons)

lemma compute_stats_total: "\<exists>st. compute_stats rnd doc = Inr st"
proof (cases "stat_coords (lots doc)")
  case Nil
  then show ?thesis by (simp add: compute_stats_def Let_def)
next
  case (Cons c cs)
  then show ?thesis by (simp add: compute_stats_def Let_def)
qed

lemma convert_Inr:
  "convert rt z a = Inr doc \<longleftrightarrow>
     (\<exists>kml_content raw_lots. extract_kml_from_kmz (rt_decode rt) z = Inr kml_content \<and>
        extract_features rt a kml_content = Inr raw_lots \<and>
        doc = build_lots_json (rt_set_iter rt) (rt_path_name rt) (rt_today rt) raw_lots (arg_input a))"
proof -
  have t: "\<And>d. \<exists>st. compute_stats (rt_round rt) d = Inr st" by (rule compute_stats_total)
  show ?thesis
  proof (cases "extract_kml_from_kmz (rt_decode rt) z")
    case (Inl e)
    then show ?thesis by (simp add: convert_def)
  next
    case (Inr kml_content)
    show ?thesis
    proof (cases "extract_features rt a kml_content")
      case (Inl e)
      with Inr show ?thesis by (simp add: convert_def)
    next
      case r: (Inr raw_lots)
      obtain st where "compute_stats (rt_round rt)
          (build_lots_json (rt_set_iter rt) (rt_path_name rt) (rt_today rt) raw_lots (arg_input a)) = Inr st"
        using t by blast
      with Inr r show ?thesis by (auto simp: convert_def Let_def)
    qed
  qed
qed


subsection \<open>The example inputs\<close>

lemma example_extract_registry: "extract_features (example_runtime example_root) (example_args False) ''<kml/>''
   = Inr [example_feature (Some ''industrialParks'')]"
  by (simp add: extract_features_def example_runtime_def example_args_def example_root_def
      example_placemark_def example_ring_def example_feature_def
      parse_kml_by_layers_def LAYER_CONFIG_def extract_layer_def iter_def findall_def find_child_def
      find_outer_def get_text_def kml_def parse_polygon_def parse_linestring_def parse_point_def
      parse_coordinates_def strip_def py_split_def is_space_def float_dec_def
        is_digit_def dec_val_def digit_val_def Let_def)

lemma example_extract_legacy: "extract_features (example_runtime example_root) (example_args True) ''<kml/>''
   = Inr [example_feature None]"
  by (simp add: extract_features_def example_runtime_def example_args_def example_root_def
      example_placemark_def example_ring_def example_feature_def
      parse_kml_placemarks_def iter_def findall_def find_child_def
      find_outer_def get_text_def kml_def parse_polygon_def 
      parse_coordinates_def strip_def py_split_def is_space_def float_dec_def
        is_digit_def dec_val_def digit_val_def Let_def)

lemma example_extract_empty: "extract_features (example_runtime example_empty_root) (example_args False) ''<kml/>''
   = Inr []"
  by (simp add: extract_features_def example_runtime_def example_args_def example_empty_root_def
      parse_kml_by_layers_def LAYER_CONFIG_def extract_layer_def iter_def kml_def  Let_def)

lemma example_archive:
  "extract_kml_from_kmz (rt_decode (example_runtime tree)) [(''doc.kml'', ''<kml/>'')] = Inr ''<kml/>''"
  by (simp add: extract_kml_from_kmz_def example_runtime_def endswith_def zip_read_def)

subsection \<open>Records without geometry\<close>

text \<open>
  Claim C9. In a document that a run writes, in the registry mode or in the legacy mode
  (any value of \<^verbatim>\<open>--legacy\<close> and \<^verbatim>\<open>--layers\<close>), every record has at least one geometry. The
  witness is a run in each mode on a document with a placemark whose only ring has 2
  points: it produces no record.
\<close>

theorem lots_have_geometry:
  assumes "convert rt z a = Inr doc"
  shows "list_all (\<lambda>lot. lot_polygons lot \<noteq> []) (lots doc)"
proof -
  from assms obtain kml_content raw_lots where
    r: "extract_features rt a kml_content = Inr raw_lots" and
    d: "doc = build_lots_json (rt_set_iter rt) (rt_path_name rt) (rt_today rt) raw_lots (arg_input a)"
    unfolding convert_Inr by blast
  have "list_all (\<lambda>g. g \<noteq> []) (map f_polygons raw_lots)"
    using extract_features_ok [OF r] by (simp add: list_all_iff feature_ok_def)
  then have "list_all (\<lambda>g. g \<noteq> []) (map lot_polygons (lots doc))"
    by (simp only: d build_lots_json_polygons)
  then show ?thesis by (simp add: list_all_iff)
qed


theorem lots_have_geometry_witness:
  "convert (example_runtime example_root) [(''doc.kml'', ''<kml/>'')] (example_args False) =
     Inr (build_lots_json remdups id ''2024-01-01'' [example_feature (Some ''industrialParks'')] ''in.kmz'') \<and>
   convert (example_runtime example_root) [(''doc.kml'', ''<kml/>'')] (example_args True) =
     Inr (build_lots_json remdups id ''2024-01-01'' [example_feature None] ''in.kmz'') \<and>
   list_all (\<lambda>lot. lot_polygons lot \<noteq> [])
     (lots (build_lots_json remdups id ''2024-01-01'' [example_feature (Some ''industrialParks'')] ''in.kmz'')) \<and>
   list_all (\<lambda>lot. lot_polygons lot \<noteq> [])
     (lots (build_lots_json remdups id ''2024-01-01'' [example_feature None] ''in.kmz''))"
proof -
  have c1: "convert (example_runtime example_root) [(''doc.kml'', ''<kml/>'')] (example_args False) =
     Inr (build_lots_json remdups id ''2024-01-01'' [example_feature (Some ''industrialParks'')] ''in.kmz'')"
    unfolding convert_Inr using example_archive [of example_root] example_extract_registry
    by (simp add: example_runtime_def example_args_def)
  have c2: "convert (example_runtime example_root) [(''doc.kml'', ''<kml/>'')] (example_args True) =
     Inr (build_lots_json remdups id ''2024-01-01'' [example_feature None] ''in.kmz'')"
    unfolding convert_Inr using example_archive [of example_root] example_extract_legacy
    by (simp add: example_runtime_def example_args_def)
  show ?thesis
    using lots_have_geometry [OF c1] lots_have_geometry [OF c2] c1 c2 by simp
qed

subsection \<open>Statistics of a document without coordinates\<close>

lemma compute_stats_no_coords:
  assumes "all_coords doc = []"
  shows "compute_stats rnd doc =
           Inr \<lparr>num_lots = length (lots doc),
                num_polygons = sum_list (map (\<lambda>lot. length (lot_polygons lot)) (lots doc)),
                by_layer = foldl (\<lambda>m lot. count_key m (lot_layer lot)) Map.empty (lots doc),
                by_geometry = foldl (\<lambda>m lot. foldl (\<lambda>m poly. count_key m (geometry poly)) m (lot_polygons lot))
                          [''Polygon'' \<mapsto> 0, ''LineString'' \<mapsto> 0, ''Point'' \<mapsto> 0] (lots doc),
                lat_range = (0, 0), lon_range = (0, 0), y_range_m = (0, 0), x_range_m = (0, 0)\<rparr>"
proof -
  have "stat_coords (lots doc) = []" using assms by (simp add: stat_coords_def all_coords_def)
  then show ?thesis by (simp add: compute_stats_def Let_def)
qed

text \<open>
  Claim C6. For every document that holds no coordinate, \<^verbatim>\<open>compute_stats\<close> does not raise
  and returns \<^verbatim>\<open>(0, 0)\<close> for the four ranges. When the document has \<^verbatim>\<open>lots: []\<close>, and so
  whenever it is the document of a run (a run produces no record without a coordinate),
  the count of features, the count of geometries and every per-layer and per-geometry
  count are zero as well. The witness is the run on a document without folders.
\<close>

theorem compute_stats_no_coordinates:
  assumes "all_coords doc = []"
  shows "(\<exists>st. compute_stats rnd doc = Inr st \<and> lat_range st = (0, 0) \<and> lon_range st = (0, 0) \<and>
               y_range_m st = (0, 0) \<and> x_range_m st = (0, 0)) \<and>
         (lots doc = [] \<or> convert rt z a = Inr doc \<longrightarrow>
            compute_stats rnd doc =
              Inr \<lparr>num_lots = 0, num_polygons = 0, by_layer = Map.empty,
                   by_geometry = [''Polygon'' \<mapsto> 0, ''LineString'' \<mapsto> 0, ''Point'' \<mapsto> 0],
                   lat_range = (0, 0), lon_range = (0, 0), y_range_m = (0, 0), x_range_m = (0, 0)\<rparr>)"
proof (intro conjI impI)
  show "\<exists>st. compute_stats rnd doc = Inr st \<and> lat_range st = (0, 0) \<and> lon_range st = (0, 0) \<and>
               y_range_m st = (0, 0) \<and> x_range_m st = (0, 0)"
    by (simp add: compute_stats_no_coords [OF assms])
next
  assume h: "lots doc = [] \<or> convert rt z a = Inr doc"
  have "lots doc = []"
  proof (rule disjE [OF h])
    assume "convert rt z a = Inr doc"
    then obtain kml_content raw_lots where
      r: "extract_features rt a kml_content = Inr raw_lots" and
      d: "doc = build_lots_json (rt_set_iter rt) (rt_path_name rt) (rt_today rt) raw_lots (arg_input a)"
      unfolding convert_Inr by blast
    have ok: "list_all feature_ok raw_lots" using r by (rule extract_features_ok)
    have p: "map lot_polygons (lots doc) = map f_polygons raw_lots"
      by (simp only: d build_lots_json_polygons)
    have "concat (map (\<lambda>gs. concat (map coordinates gs)) (map lot_polygons (lots doc))) = []"
      using assms by (simp add: all_coords_def comp_def)
    then have e: "concat (map (\<lambda>gs. concat (map coordinates gs)) (map f_polygons raw_lots)) = []"
      by (simp only: p)
    have "raw_lots = []"
    proof (cases raw_lots)
      case Nil
      then show ?thesis .
    next
      case (Cons f fs)
      with ok obtain g gs where "f_polygons f = g # gs" "coordinates g \<noteq> []"
        by (cases "f_polygons f") (auto simp: feature_ok_def)
      with e Cons show ?thesis by simp
    qed
    then show "lots doc = []" using p by simp
  qed
  then show "compute_stats rnd doc =
              Inr \<lparr>num_lots = 0, num_polygons = 0, by_layer = Map.empty,
                   by_geometry = [''Polygon'' \<mapsto> 0, ''LineString'' \<mapsto> 0, ''Point'' \<mapsto> 0],
                   lat_range = (0, 0), lon_range = (0, 0), y_range_m = (0, 0), x_range_m = (0, 0)\<rparr>"
    by (simp add: compute_stats_def stat_coords_def)
qed

theorem compute_stats_no_coordinates_witness:
  "convert (example_runtime example_empty_root) [(''doc.kml'', ''<kml/>'')] (example_args False) =
     Inr (build_lots_json remdups id ''2024-01-01'' [] ''in.kmz'') \<and>
   all_coords (build_lots_json remdups id ''2024-01-01'' [] ''in.kmz'') = [] \<and>
   compute_stats id (build_lots_json remdups id ''2024-01-01'' [] ''in.kmz'') =
     Inr \<lparr>num_lots = 0, num_polygons = 0, by_layer = Map.empty,
          by_geometry = [''Polygon'' \<mapsto> 0, ''LineString'' \<mapsto> 0, ''Point'' \<mapsto> 0],
          lat_range = (0, 0), lon_range = (0, 0), y_range_m = (0, 0), x_range_m = (0, 0)\<rparr>"
proof -
  have c: "convert (example_runtime example_empty_root) [(''doc.kml'', ''<kml/>'')] (example_args False) =
     Inr (build_lots_json remdups id ''2024-01-01'' [] ''in.kmz'')"
    unfolding convert_Inr using example_archive [of example_empty_root] example_extract_empty
    by (simp add: example_runtime_def example_args_def)
  have e: "all_coords (build_lots_json remdups id ''2024-01-01'' [] ''in.kmz'') = []"
    by (simp add: all_coords_def build_lots_json_def)
  show ?thesis
    using compute_stats_no_coordinates [OF e, of id "example_runtime example_empty_root"
        "[(''doc.kml'', ''<kml/>'')]" "example_args False"] c e
    by blast
qed
section \<open>Archive reader\<close>

lemma zip_read_distinct:
  assumes "distinct (map fst z)" "(n, b) \<in> set z"
  shows "zip_read z n = Inr b"
proof -
  have "distinct (map fst (rev z))" using assms(1) by (simp add: rev_map [symmetric])
  moreover have "(n, b) \<in> set (rev z)" using assms(2) by simp
  ultimately have "map_of (rev z) n = Some b" by (rule map_of_is_SomeI)
  then show ?thesis by (simp add: zip_read_def)
qed

lemma find_kml_files:
  "List.find (\<lambda>e. endswith (fst e) ''.kml'') z = Some (n, b) \<Longrightarrow>
   filter (\<lambda>f. endswith f ''.kml'') (map fst z) \<noteq> [] \<and>
   filter (\<lambda>f. endswith f ''.kml'') (map fst z) ! 0 = n \<and> (n, b) \<in> set z"
  by (induction z) (auto split: if_splits)

lemma map_of_find:
  "map_of xs n = Some b \<longleftrightarrow> List.find (\<lambda>e. fst e = n) xs = Some (n, b)"
  by (induction xs) auto

lemma zip_read_last:
  "List.find (\<lambda>e. fst e = n) (rev z) = Some (n, b) \<Longrightarrow> zip_read z n = Inr b"
  using map_of_find [of "rev z" n b] by (simp add: zip_read_def)

lemma find_member: "List.find P xs = Some x \<Longrightarrow> x \<in> set xs"
  by (induction xs) (auto split: if_splits)

lemma find_last_member:
  "List.find (\<lambda>e. fst e = n) (rev z) = Some (n, b) \<Longrightarrow> (n, b) \<in> set z"
  using find_member [of "\<lambda>e. fst e = n" "rev z" "(n, b)"] by simp

lemma extract_kml_from_kmz_distinct:
  assumes "distinct (map fst z)"
  shows "(extract_kml_from_kmz decode z = Inl ValueError_NoKml \<longleftrightarrow>
            \<not> list_ex (\<lambda>e. endswith (fst e) ''.kml'') z) \<and>
         (\<forall>b. (''doc.kml'', b) \<in> set z \<longrightarrow> extract_kml_from_kmz decode z = decoded decode b) \<and>
         (\<forall>n b. ''doc.kml'' \<notin> fst ` set z \<and>
                 List.find (\<lambda>e. endswith (fst e) ''.kml'') z = Some (n, b) \<longrightarrow>
                 extract_kml_from_kmz decode z = decoded decode b)"
proof (intro conjI allI impI)
  let ?kml_files = "filter (\<lambda>f. endswith f ''.kml'') (map fst z)"
  have empty_iff: "?kml_files = [] \<longleftrightarrow> \<not> list_ex (\<lambda>e. endswith (fst e) ''.kml'') z"
    by (auto simp: filter_empty_conv list_ex_iff)
  show "extract_kml_from_kmz decode z = Inl ValueError_NoKml \<longleftrightarrow>
          \<not> list_ex (\<lambda>e. endswith (fst e) ''.kml'') z"
  proof
    assume "extract_kml_from_kmz decode z = Inl ValueError_NoKml"
    then show "\<not> list_ex (\<lambda>e. endswith (fst e) ''.kml'') z"
      unfolding empty_iff [symmetric]
      by (auto simp: extract_kml_from_kmz_def Let_def zip_read_def
               split: if_splits sum.splits option.splits)
  next
    assume "\<not> list_ex (\<lambda>e. endswith (fst e) ''.kml'') z"
    then have "?kml_files = []" using empty_iff by simp
    then show "extract_kml_from_kmz decode z = Inl ValueError_NoKml"
      by (simp add: extract_kml_from_kmz_def)
  qed
next
  fix b
  assume doc: "(''doc.kml'', b) \<in> set z"
  have e: "endswith ''doc.kml'' ''.kml''" by (simp add: endswith_def)
  from doc e have m: "''doc.kml'' \<in> set (filter (\<lambda>f. endswith f ''.kml'') (map fst z))"
    by force
  then have "filter (\<lambda>f. endswith f ''.kml'') (map fst z) \<noteq> []"
    by (metis empty_iff empty_set)
  with m show "extract_kml_from_kmz decode z = decoded decode b"
    using zip_read_distinct [OF assms doc]
    by (simp add: extract_kml_from_kmz_def decoded_def)
next
  fix n b
  assume a: "''doc.kml'' \<notin> fst ` set z \<and>
             List.find (\<lambda>e. endswith (fst e) ''.kml'') z = Some (n, b)"
  then have nodoc: "''doc.kml'' \<notin> set (filter (\<lambda>f. endswith f ''.kml'') (map fst z))" by auto
  from a find_kml_files [of z n b]
  have k: "filter (\<lambda>f. endswith f ''.kml'') (map fst z) \<noteq> []"
    "filter (\<lambda>f. endswith f ''.kml'') (map fst z) ! 0 = n" "(n, b) \<in> set z" by auto
  show "extract_kml_from_kmz decode z = decoded decode b"
  proof -
    have "(if ''doc.kml'' \<in> set (filter (\<lambda>f. endswith f ''.kml'') (map fst z)) then ''doc.kml''
           else filter (\<lambda>f. endswith f ''.kml'') (map fst z) ! 0) = n"
      using nodoc k(2) by (simp only: if_False)
    then show ?thesis
      using zip_read_distinct [OF assms k(3)] k(1)
      by (simp add: extract_kml_from_kmz_def decoded_def Let_def del: set_filter)
  qed
qed

lemma extract_kml_from_kmz_doc:
  assumes "List.find (\<lambda>e. fst e = ''doc.kml'') (rev z) = Some (''doc.kml'', b)"
  shows "extract_kml_from_kmz decode z = decoded decode b"
proof -
  have e: "endswith ''doc.kml'' ''.kml''" by (simp add: endswith_def)
  have "(''doc.kml'', b) \<in> set z" using assms by (rule find_last_member)
  with e have m: "''doc.kml'' \<in> set (filter (\<lambda>f. endswith f ''.kml'') (map fst z))"
    by force
  then have "filter (\<lambda>f. endswith f ''.kml'') (map fst z) \<noteq> []"
    by (metis empty_iff empty_set)
  with m show ?thesis
    using zip_read_last [OF assms]
    by (simp add: extract_kml_from_kmz_def decoded_def)
qed

lemma extract_kml_from_kmz_first:
  assumes "''doc.kml'' \<notin> fst ` set z"
    and "List.find (\<lambda>e. endswith (fst e) ''.kml'') z = Some (n, c)"
    and "List.find (\<lambda>e. fst e = n) (rev z) = Some (n, b)"
  shows "extract_kml_from_kmz decode z = decoded decode b"
proof -
  from assms(1) have nodoc: "''doc.kml'' \<notin> set (filter (\<lambda>f. endswith f ''.kml'') (map fst z))"
    by auto
  from assms(2) find_kml_files [of z n c]
  have k: "filter (\<lambda>f. endswith f ''.kml'') (map fst z) \<noteq> []"
    "filter (\<lambda>f. endswith f ''.kml'') (map fst z) ! 0 = n" by auto
  have "(if ''doc.kml'' \<in> set (filter (\<lambda>f. endswith f ''.kml'') (map fst z)) then ''doc.kml''
         else filter (\<lambda>f. endswith f ''.kml'') (map fst z) ! 0) = n"
    using nodoc k(2) by (simp only: if_False)
  then show ?thesis
    using zip_read_last [OF assms(3)] k(1)
    by (simp add: extract_kml_from_kmz_def decoded_def Let_def del: set_filter)
qed

text \<open>
  Claim C7, as amended. \<^verbatim>\<open>extract_kml_from_kmz\<close> raises
  \<^verbatim>\<open>ValueError("No KML file found in KMZ")\<close> exactly when no entry name ends in \<^verbatim>\<open>.kml\<close>.
  Otherwise it takes the name \<^verbatim>\<open>doc.kml\<close> when an entry has it, and the name of the first
  entry whose name ends in \<^verbatim>\<open>.kml\<close> when none has, and returns the decoded content of the
  last entry of that name (or the exception of the decoder). When the names of the
  entries are distinct, that entry is the entry named \<^verbatim>\<open>doc.kml\<close>, or the first entry whose
  name ends in \<^verbatim>\<open>.kml\<close>, itself.
\<close>

theorem extract_kml_from_kmz_selects:
  "(extract_kml_from_kmz decode z = Inl ValueError_NoKml \<longleftrightarrow>
      \<not> list_ex (\<lambda>e. endswith (fst e) ''.kml'') z) \<and>
   (\<forall>b. List.find (\<lambda>e. fst e = ''doc.kml'') (rev z) = Some (''doc.kml'', b) \<longrightarrow>
        extract_kml_from_kmz decode z = decoded decode b) \<and>
   (\<forall>n c b. ''doc.kml'' \<notin> fst ` set z \<and>
            List.find (\<lambda>e. endswith (fst e) ''.kml'') z = Some (n, c) \<and>
            List.find (\<lambda>e. fst e = n) (rev z) = Some (n, b) \<longrightarrow>
            extract_kml_from_kmz decode z = decoded decode b) \<and>
   (distinct (map fst z) \<longrightarrow>
      (\<forall>b. (''doc.kml'', b) \<in> set z \<longrightarrow> extract_kml_from_kmz decode z = decoded decode b) \<and>
      (\<forall>n b. ''doc.kml'' \<notin> fst ` set z \<and>
              List.find (\<lambda>e. endswith (fst e) ''.kml'') z = Some (n, b) \<longrightarrow>
              extract_kml_from_kmz decode z = decoded decode b))"
proof (intro conjI allI impI)
  let ?kml_files = "filter (\<lambda>f. endswith f ''.kml'') (map fst z)"
  have empty_iff: "?kml_files = [] \<longleftrightarrow> \<not> list_ex (\<lambda>e. endswith (fst e) ''.kml'') z"
    by (auto simp: filter_empty_conv list_ex_iff)
  show "extract_kml_from_kmz decode z = Inl ValueError_NoKml \<longleftrightarrow>
          \<not> list_ex (\<lambda>e. endswith (fst e) ''.kml'') z"
  proof
    assume "extract_kml_from_kmz decode z = Inl ValueError_NoKml"
    then show "\<not> list_ex (\<lambda>e. endswith (fst e) ''.kml'') z"
      unfolding empty_iff [symmetric]
      by (auto simp: extract_kml_from_kmz_def Let_def zip_read_def
               split: if_splits sum.splits option.splits)
  next
    assume "\<not> list_ex (\<lambda>e. endswith (fst e) ''.kml'') z"
    then have "?kml_files = []" using empty_iff by simp
    then show "extract_kml_from_kmz decode z = Inl ValueError_NoKml"
      by (simp add: extract_kml_from_kmz_def)
  qed
next
  fix b
  assume "List.find (\<lambda>e. fst e = ''doc.kml'') (rev z) = Some (''doc.kml'', b)"
  then show "extract_kml_from_kmz decode z = decoded decode b"
    by (rule extract_kml_from_kmz_doc)
next
  fix n c b
  assume "''doc.kml'' \<notin> fst ` set z \<and>
          List.find (\<lambda>e. endswith (fst e) ''.kml'') z = Some (n, c) \<and>
          List.find (\<lambda>e. fst e = n) (rev z) = Some (n, b)"
  then have a: "''doc.kml'' \<notin> fst ` set z"
    "List.find (\<lambda>e. endswith (fst e) ''.kml'') z = Some (n, c)"
    "List.find (\<lambda>e. fst e = n) (rev z) = Some (n, b)" by simp_all
  show "extract_kml_from_kmz decode z = decoded decode b"
    by (rule extract_kml_from_kmz_first [OF a])
next
  fix b
  assume d: "distinct (map fst z)" and m: "(''doc.kml'', b) \<in> set z"
  show "extract_kml_from_kmz decode z = decoded decode b"
    using extract_kml_from_kmz_distinct [OF d, of decode] m by blast
next
  fix n b
  assume d: "distinct (map fst z)" and
    f: "''doc.kml'' \<notin> fst ` set z \<and> List.find (\<lambda>e. endswith (fst e) ''.kml'') z = Some (n, b)"
  show "extract_kml_from_kmz decode z = decoded decode b"
    using extract_kml_from_kmz_distinct [OF d, of decode] f by blast
qed

theorem extract_kml_from_kmz_selects_witness:
  "extract_kml_from_kmz Some [(''a.kml'', ''A''), (''doc.kml'', ''D'')] = Inr ''D'' \<and>
   extract_kml_from_kmz Some [(''x.png'', ''P''), (''a.kml'', ''A''), (''b.kml'', ''B'')] = Inr ''A'' \<and>
   extract_kml_from_kmz Some [(''b.kml'', ''B1''), (''c.kml'', ''C''), (''b.kml'', ''B2'')] = Inr ''B2'' \<and>
   extract_kml_from_kmz Some [(''x.png'', ''P'')] = Inl ValueError_NoKml"
proof -
  have d1: "distinct (map fst [(''a.kml'', ''A''), (''doc.kml'', ''D'')])" by simp
  have d2: "distinct (map fst [(''x.png'', ''P''), (''a.kml'', ''A''), (''b.kml'', ''B'')])" by simp
  have f2: "List.find (\<lambda>e. endswith (fst e) ''.kml'') [(''x.png'', ''P''), (''a.kml'', ''A''), (''b.kml'', ''B'')]
             = Some (''a.kml'', ''A'')"
    by (simp add: endswith_def)
  have f3: "List.find (\<lambda>e. endswith (fst e) ''.kml'')
              [(''b.kml'', ''B1''), (''c.kml'', ''C''), (''b.kml'', ''B2'')] = Some (''b.kml'', ''B1'')"
    by (simp add: endswith_def)
  have l3: "List.find (\<lambda>e. fst e = ''b.kml'')
              (rev [(''b.kml'', ''B1''), (''c.kml'', ''C''), (''b.kml'', ''B2'')]) = Some (''b.kml'', ''B2'')"
    by simp
  have n3: "''doc.kml'' \<notin> fst ` set [(''b.kml'', ''B1''), (''c.kml'', ''C''), (''b.kml'', ''B2'')]"
    by simp
  have n4: "\<not> list_ex (\<lambda>e. endswith (fst e) ''.kml'') [(''x.png'', ''P'')]"
    by (simp add: endswith_def)
  have "extract_kml_from_kmz Some [(''a.kml'', ''A''), (''doc.kml'', ''D'')] = decoded Some ''D''"
    using extract_kml_from_kmz_selects [of Some "[(''a.kml'', ''A''), (''doc.kml'', ''D'')]"] d1
    by simp
  moreover have "extract_kml_from_kmz Some [(''x.png'', ''P''), (''a.kml'', ''A''), (''b.kml'', ''B'')]
      = decoded Some ''A''"
    using extract_kml_from_kmz_selects [of Some "[(''x.png'', ''P''), (''a.kml'', ''A''), (''b.kml'', ''B'')]"]
      d2 f2 by simp
  moreover have "extract_kml_from_kmz Some [(''b.kml'', ''B1''), (''c.kml'', ''C''), (''b.kml'', ''B2'')]
      = decoded Some ''B2''"
    using extract_kml_from_kmz_selects [of Some "[(''b.kml'', ''B1''), (''c.kml'', ''C''), (''b.kml'', ''B2'')]"]
      f3 l3 n3 by blast
  moreover have "extract_kml_from_kmz Some [(''x.png'', ''P'')] = Inl ValueError_NoKml"
    using extract_kml_from_kmz_selects [of Some "[(''x.png'', ''P'')]"] n4 by blast
  ultimately show ?thesis by (simp add: decoded_def)
qed

text \<open>
  Claim C7 as stated, for every zip archive, fails: when two entries have the same name,
  the content of the last one is returned, not that of the first entry whose name ends
  in \<^verbatim>\<open>.kml\<close>.
\<close>

theorem extract_kml_from_kmz_duplicate_name:
  "List.find (\<lambda>e. endswith (fst e) ''.kml'') [(''a.kml'', ''A1''), (''a.kml'', ''A2'')]
     = Some (''a.kml'', ''A1'') \<and>
   extract_kml_from_kmz Some [(''a.kml'', ''A1''), (''a.kml'', ''A2'')] = Inr ''A2''"
  by (simp add: extract_kml_from_kmz_def endswith_def zip_read_def)

section \<open>Identifiers\<close>

subsection \<open>Decimal text\<close>

lemma of_char_digit_char: "d < 10 \<Longrightarrow> (of_char (digit_char d) :: nat) = 48 + d"
  by (simp add: digit_char_def)

lemma is_digit_digit_char: "d < 10 \<Longrightarrow> is_digit (digit_char d)"
  by (simp add: is_digit_def of_char_digit_char)

lemma digit_val_digit_char: "d < 10 \<Longrightarrow> digit_val (digit_char d) = d"
  by (simp add: digit_val_def of_char_digit_char)

lemma dec_val_snoc: "dec_val (s @ [c]) = 10 * dec_val s + digit_val c"
  by (simp add: dec_val_def)

lemma str_nat_digits: "list_all is_digit (str_nat n)"
proof (induction n rule: str_nat.induct)
  case (1 n)
  show ?case
  proof (cases "n < 10")
    case True
    then show ?thesis by (subst str_nat.simps) (simp add: is_digit_digit_char)
  next
    case False
    with 1 show ?thesis by (subst str_nat.simps) (simp add: is_digit_digit_char)
  qed
qed

lemma dec_val_str_nat: "dec_val (str_nat n) = n"
proof (induction n rule: str_nat.induct)
  case (1 n)
  show ?case
  proof (cases "n < 10")
    case True
    then show ?thesis
      by (subst str_nat.simps) (simp add: dec_val_def digit_val_digit_char)
  next
    case False
    with 1 show ?thesis
      by (subst str_nat.simps) (simp add: dec_val_snoc digit_val_digit_char)
  qed
qed

lemma dec_val_zeros: "dec_val (replicate k CHR ''0'' @ s) = dec_val s"
proof -
  have "foldl (\<lambda>a c. 10 * a + digit_val c) 0 (replicate k CHR ''0'') = 0"
    by (induction k) (simp_all add: digit_val_def)
  then show ?thesis by (simp add: dec_val_def)
qed

lemma dec_val_fmt_03d: "dec_val (fmt_03d n) = n"
  by (simp add: fmt_03d_def dec_val_zeros dec_val_str_nat)

lemma fmt_03d_inj: "fmt_03d m = fmt_03d n \<Longrightarrow> m = n"
  by (metis dec_val_fmt_03d)

lemma fmt_03d_no_underscore: "CHR ''_'' \<notin> set (fmt_03d n)"
proof -
  have "list_all is_digit (fmt_03d n)"
    using str_nat_digits [of n] by (auto simp: fmt_03d_def list_all_iff is_digit_def)
  moreover have "\<not> is_digit CHR ''_''" by (simp add: is_digit_def)
  ultimately show ?thesis by (auto simp: list_all_iff)
qed

lemma split_at_last:
  "c \<notin> set u \<Longrightarrow> c \<notin> set v \<Longrightarrow> u @ c # p = v @ c # q \<Longrightarrow> u = v \<and> p = q"
proof (induction u arbitrary: v)
  case Nil
  then show ?case by (cases v) auto
next
  case (Cons a u)
  then show ?case by (cases v) auto
qed

lemma lot_id_eq:
  assumes "a @ ''_'' @ fmt_03d m = b @ ''_'' @ fmt_03d n"
  shows "a = b \<and> m = n"
proof -
  from assms have "rev (a @ ''_'' @ fmt_03d m) = rev (b @ ''_'' @ fmt_03d n)" by simp
  then have "rev (fmt_03d m) @ CHR ''_'' # rev a = rev (fmt_03d n) @ CHR ''_'' # rev b" by simp
  moreover have "CHR ''_'' \<notin> set (rev (fmt_03d m))" "CHR ''_'' \<notin> set (rev (fmt_03d n))"
    using fmt_03d_no_underscore by simp_all
  ultimately have "rev (fmt_03d m) = rev (fmt_03d n) \<and> rev a = rev b"
    by (rule split_at_last [rotated 2])
  then show ?thesis using fmt_03d_inj by auto
qed

subsection \<open>The identifiers\<close>

lemma build_lots_loop_length:
  "length (build_lots_loop m acc raws) = length acc + length raws"
  by (induction raws arbitrary: m acc) (simp_all add: Let_def)

lemma build_lots_loop_prefix:
  "j < length acc \<Longrightarrow> build_lots_loop m acc raws ! j = acc ! j"
  by (induction raws arbitrary: m acc) (simp_all add: Let_def nth_append)

lemma build_lots_loop_id:
  "i < length raws \<Longrightarrow>
   lot_id (build_lots_loop m acc raws ! (length acc + i)) =
     id_prefix (layer_name_of (raws ! i)) @ ''_'' @
     fmt_03d (cnt m (layer_name_of (raws ! i)) +
              length (filter (\<lambda>r. layer_name_of r = layer_name_of (raws ! i)) (take (Suc i) raws)))"
proof (induction raws arbitrary: m acc i)
  case Nil
  then show ?case by simp
next
  case (Cons r rs)
  let ?l = "layer_name_of r"
  let ?n = "cnt m ?l + 1"
  let ?lot = "\<lparr>lot_id = id_prefix ?l @ ''_'' @ fmt_03d ?n, lot_name = f_name r,
               lot_comment = f_description r, lot_layer = ?l, lot_type = f_type r,
               lot_region_id = None, lot_polygons = f_polygons r, lot_region_params = None,
               lot_conversion_rule_ids = None, lot_priority = 0\<rparr>"
  have step: "build_lots_loop m acc (r # rs) = build_lots_loop (m(?l \<mapsto> ?n)) (acc @ [?lot]) rs"
    by (simp add: Let_def layer_name_of_def id_prefix_def cnt_def)
  show ?case
  proof (cases i)
    case 0
    have "build_lots_loop m acc (r # rs) ! length acc = (acc @ [?lot]) ! length acc"
      unfolding step by (rule build_lots_loop_prefix) simp
    then show ?thesis using 0 by simp
  next
    case (Suc k)
    with Cons.prems have k: "k < length rs" by simp
    have "lot_id (build_lots_loop (m(?l \<mapsto> ?n)) (acc @ [?lot]) rs ! (length (acc @ [?lot]) + k)) =
       id_prefix (layer_name_of (rs ! k)) @ ''_'' @
       fmt_03d (cnt (m(?l \<mapsto> ?n)) (layer_name_of (rs ! k)) +
              length (filter (\<lambda>r. layer_name_of r = layer_name_of (rs ! k)) (take (Suc k) rs)))"
      using k by (rule Cons.IH)
    moreover have "cnt (m(?l \<mapsto> ?n)) (layer_name_of (rs ! k)) +
              length (filter (\<lambda>r. layer_name_of r = layer_name_of (rs ! k)) (take (Suc k) rs))
          = cnt m (layer_name_of (rs ! k)) +
              length (filter (\<lambda>x. layer_name_of x = layer_name_of (rs ! k)) (take (Suc (Suc k)) (r # rs)))"
      by (simp add: cnt_def)
    ultimately show ?thesis using Suc unfolding step by simp
  qed
qed

lemma build_lots_json_id:
  assumes "i < length raw_lots"
  shows "lot_id (lots (build_lots_json si pn today raw_lots src) ! i) =
           id_prefix (layer_name_of (raw_lots ! i)) @ ''_'' @ fmt_03d (seq_no raw_lots i)"
  using build_lots_loop_id [OF assms, of Map.empty "[]"]
  by (simp add: build_lots_json_def Let_def seq_no_def cnt_def)

lemma seq_no_positive: "i < length raw_lots \<Longrightarrow> 1 \<le> seq_no raw_lots i"
proof -
  assume i: "i < length raw_lots"
  then have "raw_lots ! i \<in> set (take (Suc i) raw_lots)"
    by (metis in_set_conv_nth length_take lessI min_less_iff_conj nth_take)
  then have "filter (\<lambda>r. layer_name_of r = layer_name_of (raw_lots ! i)) (take (Suc i) raw_lots) \<noteq> []"
    by (auto simp: filter_empty_conv)
  then show ?thesis unfolding seq_no_def by (simp add: Suc_le_eq)
qed

lemma seq_no_increases:
  assumes "i < j" "j < length raw_lots" "layer_name_of (raw_lots ! i) = layer_name_of (raw_lots ! j)"
  shows "seq_no raw_lots i < seq_no raw_lots j"
proof -
  let ?P = "\<lambda>r. layer_name_of r = layer_name_of (raw_lots ! j)"
  have t: "take (Suc j) raw_lots = take (Suc i) raw_lots @ drop (Suc i) (take (Suc j) raw_lots)"
    using assms(1) by (metis Suc_leI Suc_le_mono append_take_drop_id min.absorb1 take_take less_imp_le)
  have "raw_lots ! j \<in> set (drop (Suc i) (take (Suc j) raw_lots))"
  proof -
    have "drop (Suc i) (take (Suc j) raw_lots) ! (j - Suc i) = raw_lots ! j"
      using assms(1,2) by simp
    moreover have "j - Suc i < length (drop (Suc i) (take (Suc j) raw_lots))"
      using assms(1,2) by simp
    ultimately show ?thesis by (metis nth_mem)
  qed
  then have "filter ?P (drop (Suc i) (take (Suc j) raw_lots)) \<noteq> []"
    by (auto simp: filter_empty_conv)
  then have "0 < length (filter ?P (drop (Suc i) (take (Suc j) raw_lots)))" by simp
  moreover have "length (filter ?P (take (Suc j) raw_lots)) =
      length (filter ?P (take (Suc i) raw_lots)) + length (filter ?P (drop (Suc i) (take (Suc j) raw_lots)))"
    by (subst t) simp
  ultimately show ?thesis unfolding seq_no_def assms(3) by simp
qed

lemma build_lots_json_length:
  "length (lots (build_lots_json si pn today raw_lots src)) = length raw_lots"
  by (simp add: build_lots_json_def Let_def build_lots_loop_length)

lemma ids_distinct:
  assumes "inj_on id_prefix (set (map layer_name_of raw_lots))"
  shows "distinct (map lot_id (lots (build_lots_json si pn today raw_lots src)))"
proof -
  let ?lots = "lots (build_lots_json si pn today raw_lots src)"
  have len: "length ?lots = length raw_lots" by (rule build_lots_json_length)
  have ne: "lot_id (?lots ! i) \<noteq> lot_id (?lots ! j)" if ij: "i < j" and j: "j < length raw_lots" for i j
  proof
    assume eq: "lot_id (?lots ! i) = lot_id (?lots ! j)"
    from ij j have i: "i < length raw_lots" by simp
    from eq have "id_prefix (layer_name_of (raw_lots ! i)) @ ''_'' @ fmt_03d (seq_no raw_lots i) =
        id_prefix (layer_name_of (raw_lots ! j)) @ ''_'' @ fmt_03d (seq_no raw_lots j)"
      by (simp only: build_lots_json_id [OF i] build_lots_json_id [OF j])
    then have p: "id_prefix (layer_name_of (raw_lots ! i)) = id_prefix (layer_name_of (raw_lots ! j))"
      and s: "seq_no raw_lots i = seq_no raw_lots j"
      using lot_id_eq by blast+
    have "layer_name_of (raw_lots ! i) = layer_name_of (raw_lots ! j)"
      using assms p i j by (auto dest!: inj_onD)
    then have "seq_no raw_lots i < seq_no raw_lots j" using ij j by (rule seq_no_increases [rotated 2])
    with s show False by simp
  qed
  have "\<And>i j. i < length (map lot_id ?lots) \<Longrightarrow> j < length (map lot_id ?lots) \<Longrightarrow> i \<noteq> j \<Longrightarrow>
          map lot_id ?lots ! i \<noteq> map lot_id ?lots ! j"
  proof -
    fix i j
    assume a: "i < length (map lot_id ?lots)" "j < length (map lot_id ?lots)" "i \<noteq> j"
    then consider "i < j" | "j < i" by linarith
    then show "map lot_id ?lots ! i \<noteq> map lot_id ?lots ! j"
    proof cases
      case 1
      then show ?thesis using ne [of i j] a len by simp
    next
      case 2
      then show ?thesis using ne [of j i] a len by (simp add: eq_commute)
    qed
  qed
  then show ?thesis by (simp add: distinct_conv_nth)
qed

lemma registry_prefixes: "inj_on id_prefix (set (''lots'' # map (\<lambda>kv. cfg_layer (snd kv)) LAYER_CONFIG))"
  by (simp add: LAYER_CONFIG_def id_prefix_def)

lemma fmt_03d_small: "fmt_03d (Suc 0) = ''001''" "fmt_03d (Suc (Suc 0)) = ''002''"
  by code_simp+

text \<open>The identifiers of the document of a run are pairwise different.\<close>

lemma convert_ids_distinct:
  assumes "convert rt z a = Inr doc"
  shows "distinct (map lot_id (lots doc))"
proof -
  from assms obtain kml_content raw_lots where
    r: "extract_features rt a kml_content = Inr raw_lots" and
    d: "doc = build_lots_json (rt_set_iter rt) (rt_path_name rt) (rt_today rt) raw_lots (arg_input a)"
    unfolding convert_Inr by blast
  have "inj_on id_prefix (set (map layer_name_of raw_lots))"
    using registry_prefixes extract_features_layers [OF r] by (rule inj_on_subset)
  then show ?thesis unfolding d by (rule ids_distinct)
qed

lemma example_extract_three:
  "extract_features (example_runtime example_three_root) (example_args False) ''<kml/>''
   = Inr [example_feature (Some ''industrialParks''), example_feature (Some ''industrialParks''),
          example_urban_feature]"
  by (simp add: extract_features_def example_runtime_def example_args_def example_three_root_def
      example_placemark_def example_ring_def example_feature_def example_urban_feature_def
      parse_kml_by_layers_def LAYER_CONFIG_def extract_layer_def iter_def findall_def find_child_def
      find_outer_def get_text_def kml_def parse_polygon_def parse_linestring_def parse_point_def
      parse_coordinates_def strip_def py_split_def is_space_def float_dec_def
        is_digit_def dec_val_def digit_val_def Let_def)

text \<open>
  Claim C1. \<^verbatim>\<open>build_lots_json\<close> produces one record for each feature, in order; the
  identifier of record \<open>i\<close> is the prefix of its layer (the first 4 characters of the layer
  name, \<^verbatim>\<open>lot\<close> for the empty name), an underscore and, zero-padded to width 3, the position
  of the feature among the features of its layer, counted from 1 in the order of the
  input. For every sequence of extracted features, in the registry mode or in the legacy
  mode, the identifiers are pairwise different. The witness is the extraction of two
  features of one layer and one of another.
\<close>

theorem build_lots_json_ids:
  "length (lots (build_lots_json si pn today raw_lots src)) = length raw_lots \<and>
   (\<forall>i<length raw_lots.
      lot_id (lots (build_lots_json si pn today raw_lots src) ! i) =
        id_prefix (layer_name_of (raw_lots ! i)) @ ''_'' @ fmt_03d (seq_no raw_lots i) \<and>
      1 \<le> seq_no raw_lots i) \<and>
   (extract_features rt a kml_content = Inr raw_lots \<longrightarrow>
      distinct (map lot_id (lots (build_lots_json si pn today raw_lots src))))"
proof (intro conjI allI impI)
  show "length (lots (build_lots_json si pn today raw_lots src)) = length raw_lots"
    by (rule build_lots_json_length)
next
  fix i assume "i < length raw_lots"
  then show "lot_id (lots (build_lots_json si pn today raw_lots src) ! i) =
        id_prefix (layer_name_of (raw_lots ! i)) @ ''_'' @ fmt_03d (seq_no raw_lots i)"
    by (rule build_lots_json_id)
next
  fix i assume "i < length raw_lots"
  then show "1 \<le> seq_no raw_lots i" by (rule seq_no_positive)
next
  assume r: "extract_features rt a kml_content = Inr raw_lots"
  have "inj_on id_prefix (set (map layer_name_of raw_lots))"
    using registry_prefixes extract_features_layers [OF r] by (rule inj_on_subset)
  then show "distinct (map lot_id (lots (build_lots_json si pn today raw_lots src)))"
    by (rule ids_distinct)
qed

theorem build_lots_json_ids_witness:
  "extract_features (example_runtime example_three_root) (example_args False) ''<kml/>''
     = Inr [example_feature (Some ''industrialParks''), example_feature (Some ''industrialParks''),
            example_urban_feature] \<and>
   map lot_id (lots (build_lots_json remdups id ''2024-01-01''
      [example_feature (Some ''industrialParks''), example_feature (Some ''industrialParks''),
       example_urban_feature] ''in.kmz'')) = [''indu_001'', ''indu_002'', ''urba_001''] \<and>
   distinct (map lot_id (lots (build_lots_json remdups id ''2024-01-01''
      [example_feature (Some ''industrialParks''), example_feature (Some ''industrialParks''),
       example_urban_feature] ''in.kmz'')))"
proof -
  let ?raw = "[example_feature (Some ''industrialParks''), example_feature (Some ''industrialParks''),
       example_urban_feature]"
  have ids: "map lot_id (lots (build_lots_json remdups id ''2024-01-01'' ?raw ''in.kmz''))
      = [''indu_001'', ''indu_002'', ''urba_001'']"
    by (simp add: build_lots_json_def Let_def example_feature_def example_urban_feature_def
        fmt_03d_small)
  show ?thesis
    using build_lots_json_ids [of remdups id "''2024-01-01''" ?raw "''in.kmz''"
        "example_runtime example_three_root" "example_args False" "''<kml/>''"]
      example_extract_three ids
    by blast
qed

section \<open>Two runs on the same input\<close>

lemma convert_cases:
  "convert rt z a =
     (case extract_kml_from_kmz (rt_decode rt) z of
        Inl e \<Rightarrow> Inl e
      | Inr kml_content \<Rightarrow>
          (case extract_features rt a kml_content of
             Inl e \<Rightarrow> Inl e
           | Inr raw_lots \<Rightarrow>
               Inr (build_lots_json (rt_set_iter rt) (rt_path_name rt) (rt_today rt) raw_lots
                      (arg_input a))))"
proof -
  have "\<And>d. \<exists>st. compute_stats (rt_round rt) d = Inr st" by (rule compute_stats_total)
  then have "\<And>d. (case compute_stats (rt_round rt) d of Inl e \<Rightarrow> Inl e | Inr st \<Rightarrow> Inr d) = Inr d"
    by (metis sum.case(2))
  then show ?thesis by (simp add: convert_def Let_def split: sum.splits)
qed

lemma extract_features_runtime:
  "extract_features (rt\<lparr>rt_today := today', rt_set_iter := si'\<rparr>) a k = extract_features rt a k"
  by (simp add: extract_features_def)

lemma build_lots_json_fields:
  "version (build_lots_json si pn today raw src) = ''2.0''"
  "generated (build_lots_json si pn today raw src) = today"
  "source_kmz (build_lots_json si pn today raw src) = pn src"
  "transform (build_lots_json si pn today raw src) = transform (build_lots_json si' pn' today' raw' src')"
  "lots (build_lots_json si pn today raw src) = build_lots_loop Map.empty [] raw"
  "layers (build_lots_json si pn today raw src) =
     map (\<lambda>layer_name. (layer_name, layer_meta_of layer_name))
       (si (map lot_layer (build_lots_loop Map.empty [] raw)))"
  by (simp_all add: build_lots_json_def Let_def)

lemma example_extract_two_layers:
  "extract_features (example_runtime example_two_layers_root) (example_args False) ''<kml/>''
   = Inr [example_feature (Some ''industrialParks''), example_urban_feature]"
  by (simp add: extract_features_def example_runtime_def example_args_def example_two_layers_root_def
      example_placemark_def example_ring_def example_feature_def example_urban_feature_def
      parse_kml_by_layers_def LAYER_CONFIG_def extract_layer_def iter_def findall_def find_child_def
      find_outer_def get_text_def kml_def parse_polygon_def parse_linestring_def parse_point_def
      parse_coordinates_def strip_def py_split_def is_space_def float_dec_def
        is_digit_def dec_val_def digit_val_def Let_def)

lemma valid_set_iter_examples: "valid_set_iter remdups" "valid_set_iter (rev \<circ> remdups)"
  by (simp_all add: valid_set_iter_def)

text \<open>
  Claim C2, as amended. Two runs on the same archive entries, with the same arguments and
  the same library functions, may differ in the date of the day and in the order in
  which Python iterates over the set of layer names. They raise the same exception or
  both write a document; the two documents have the same version, source name, transform
  block and records, and the same entries in \<^verbatim>\<open>layers\<close>, each layer once, in an order that
  follows the iteration order of the set; with the same iteration order \<^verbatim>\<open>layers\<close> is the
  same list.
\<close>

theorem convert_deterministic:
  assumes "valid_set_iter (rt_set_iter rt)" and "valid_set_iter si'"
  shows "(case (convert rt z a, convert (rt\<lparr>rt_today := today', rt_set_iter := si'\<rparr>) z a) of
            (Inl e, Inl e') \<Rightarrow> e' = e
          | (Inr d, Inr d') \<Rightarrow>
              version d' = version d \<and> source_kmz d' = source_kmz d \<and>
              transform d' = transform d \<and> lots d' = lots d \<and>
              set (layers d') = set (layers d) \<and>
              distinct (map fst (layers d)) \<and> distinct (map fst (layers d')) \<and>
              (si' = rt_set_iter rt \<longrightarrow> layers d' = layers d)
          | _ \<Rightarrow> False)"
proof (cases "extract_kml_from_kmz (rt_decode rt) z")
  case (Inl e)
  then show ?thesis by (simp add: convert_cases)
next
  case (Inr k)
  show ?thesis
  proof (cases "extract_features rt a k")
    case (Inl e)
    with Inr show ?thesis by (simp add: convert_cases extract_features_runtime)
  next
    case r: (Inr raw)
    let ?names = "map lot_layer (build_lots_loop Map.empty [] raw)"
    have s: "set (rt_set_iter rt ?names) = set ?names" "set (si' ?names) = set ?names"
      and d: "distinct (rt_set_iter rt ?names)" "distinct (si' ?names)"
      using assms by (simp_all add: valid_set_iter_def)
    have "set (map (\<lambda>n. (n, layer_meta_of n)) (si' ?names)) =
          set (map (\<lambda>n. (n, layer_meta_of n)) (rt_set_iter rt ?names))"
      using s by simp
    moreover have "map fst (map (\<lambda>n. (n, layer_meta_of n)) xs) = xs" for xs :: "string list"
      by (simp add: comp_def)
    ultimately show ?thesis
      using Inr r d
      by (simp add: convert_cases extract_features_runtime build_lots_json_fields(1-3,5,6)
          build_lots_json_fields(4) [of si' _ today' raw _ "rt_set_iter rt" "rt_path_name rt" "rt_today rt" raw "arg_input a"])
  qed
qed

theorem convert_deterministic_witness:
  "valid_set_iter (rt_set_iter (example_runtime example_two_layers_root)) \<and>
   valid_set_iter (rev \<circ> remdups) \<and>
   (case (convert (example_runtime example_two_layers_root) [(''doc.kml'', ''<kml/>'')] (example_args False),
          convert ((example_runtime example_two_layers_root)
                     \<lparr>rt_today := ''2024-12-31'', rt_set_iter := rev \<circ> remdups\<rparr>)
            [(''doc.kml'', ''<kml/>'')] (example_args False)) of
      (Inr d, Inr d') \<Rightarrow> lots d' = lots d \<and> set (layers d') = set (layers d)
    | _ \<Rightarrow> False)"
proof -
  have v: "valid_set_iter (rt_set_iter (example_runtime example_two_layers_root))"
    using valid_set_iter_examples(1) by (simp add: example_runtime_def)
  have c: "convert (example_runtime example_two_layers_root) [(''doc.kml'', ''<kml/>'')] (example_args False)
     = Inr (build_lots_json remdups id ''2024-01-01''
              [example_feature (Some ''industrialParks''), example_urban_feature] ''in.kmz'')"
    unfolding convert_Inr using example_archive [of example_two_layers_root] example_extract_two_layers
    by (simp add: example_runtime_def example_args_def)
  show ?thesis
    using convert_deterministic [OF v valid_set_iter_examples(2), of "[(''doc.kml'', ''<kml/>'')]"
        "example_args False" "''2024-12-31''"] v valid_set_iter_examples(2) c
    by (auto split: sum.splits)
qed

text \<open>
  Claim C2 as stated fails for the serialised document: with the same date, two iteration
  orders of the set of layer names give documents whose \<^verbatim>\<open>layers\<close> keys come in different
  orders.
\<close>

theorem convert_layers_order_differs:
  "convert (example_runtime example_two_layers_root) [(''doc.kml'', ''<kml/>'')] (example_args False)
     = Inr (build_lots_json remdups id ''2024-01-01''
              [example_feature (Some ''industrialParks''), example_urban_feature] ''in.kmz'') \<and>
   convert ((example_runtime example_two_layers_root) \<lparr>rt_set_iter := rev \<circ> remdups\<rparr>)
       [(''doc.kml'', ''<kml/>'')] (example_args False)
     = Inr (build_lots_json (rev \<circ> remdups) id ''2024-01-01''
              [example_feature (Some ''industrialParks''), example_urban_feature] ''in.kmz'') \<and>
   map fst (layers (build_lots_json remdups id ''2024-01-01''
              [example_feature (Some ''industrialParks''), example_urban_feature] ''in.kmz''))
     = [''industrialParks'', ''urbanFootprint''] \<and>
   map fst (layers (build_lots_json (rev \<circ> remdups) id ''2024-01-01''
              [example_feature (Some ''industrialParks''), example_urban_feature] ''in.kmz''))
     = [''urbanFootprint'', ''industrialParks''] \<and>
   build_lots_json remdups id ''2024-01-01''
              [example_feature (Some ''industrialParks''), example_urban_feature] ''in.kmz''
     \<noteq> build_lots_json (rev \<circ> remdups) id ''2024-01-01''
              [example_feature (Some ''industrialParks''), example_urban_feature] ''in.kmz''"
proof -
  let ?raw = "[example_feature (Some ''industrialParks''), example_urban_feature]"
  have e: "extract_features ((example_runtime example_two_layers_root) \<lparr>rt_set_iter := rev \<circ> remdups\<rparr>)
             (example_args False) ''<kml/>'' = Inr ?raw"
    using example_extract_two_layers
      extract_features_runtime [where rt = "example_runtime example_two_layers_root"
        and today' = "''2024-01-01''" and si' = "rev \<circ> remdups"]
    by (simp add: example_runtime_def)
  have c1: "convert (example_runtime example_two_layers_root) [(''doc.kml'', ''<kml/>'')] (example_args False)
     = Inr (build_lots_json remdups id ''2024-01-01'' ?raw ''in.kmz'')"
    unfolding convert_Inr using example_archive [of example_two_layers_root] example_extract_two_layers
    by (simp add: example_runtime_def example_args_def)
  have c2: "convert ((example_runtime example_two_layers_root) \<lparr>rt_set_iter := rev \<circ> remdups\<rparr>)
       [(''doc.kml'', ''<kml/>'')] (example_args False)
     = Inr (build_lots_json (rev \<circ> remdups) id ''2024-01-01'' ?raw ''in.kmz'')"
    unfolding convert_Inr using example_archive [of example_two_layers_root] e
    by (simp add: example_runtime_def example_args_def)
  have l1: "map fst (layers (build_lots_json remdups id ''2024-01-01'' ?raw ''in.kmz''))
     = [''industrialParks'', ''urbanFootprint'']"
    by (simp add: build_lots_json_fields Let_def example_feature_def example_urban_feature_def comp_def)
  have l2: "map fst (layers (build_lots_json (rev \<circ> remdups) id ''2024-01-01'' ?raw ''in.kmz''))
     = [''urbanFootprint'', ''industrialParks'']"
    by (simp add: build_lots_json_fields Let_def example_feature_def example_urban_feature_def comp_def)
  have "build_lots_json remdups id ''2024-01-01'' ?raw ''in.kmz''
     \<noteq> build_lots_json (rev \<circ> remdups) id ''2024-01-01'' ?raw ''in.kmz''"
    using l1 l2 by auto
  with c1 c2 l1 l2 show ?thesis by blast
qed
section \<open>The coordinate transform\<close>

subsection \<open>Round trip\<close>

lemma rounding_abs: "rounding rnd \<Longrightarrow> \<bar>rnd x - x\<bar> \<le> \<bar>x\<bar> / 2 ^ 53"
  by (simp add: rounding_def)

lemma roundtrip_generic:
  fixes v o' m :: real
  assumes r: "rounding rnd" and m: "0 < m" and o: "\<bar>o'\<bar> \<le> 180" and v: "\<bar>v\<bar> \<le> 180"
  shows "\<bar>rnd (rnd (rnd (rnd (v - o') * m) / m) + o') - v\<bar> \<le> 1 / 10 ^ 9"
proof -
  define u :: real where "u = 1 / 2 ^ 53"
  have u: "0 < u" "u \<le> 1 / 1000000000000000" by (simp_all add: u_def)
  have e: "\<bar>rnd x - x\<bar> \<le> \<bar>x\<bar> * u" for x
    using rounding_abs [OF r, of x] by (simp add: u_def)
  define d where "d = v - o'"
  define d1 where "d1 = rnd d"
  define y where "y = rnd (d1 * m)"
  define q where "q = rnd (y / m)"
  define s where "s = q + o'"
  have bd: "\<bar>d\<bar> \<le> 360" using o v unfolding d_def by linarith
  have e1: "\<bar>d1 - d\<bar> \<le> 360 * u"
  proof -
    have "\<bar>d1 - d\<bar> \<le> \<bar>d\<bar> * u" unfolding d1_def by (rule e)
    also have "\<dots> \<le> 360 * u" using bd u(1) by (intro mult_right_mono) simp_all
    finally show ?thesis .
  qed
  have bd1: "\<bar>d1\<bar> \<le> 361" using e1 bd u by linarith
  have e2: "\<bar>y / m - d1\<bar> \<le> 361 * u"
  proof -
    have "\<bar>y - d1 * m\<bar> \<le> \<bar>d1 * m\<bar> * u" unfolding y_def by (rule e)
    then have "\<bar>y - d1 * m\<bar> / m \<le> \<bar>d1 * m\<bar> * u / m"
      using m by (intro divide_right_mono) simp_all
    moreover have "\<bar>y - d1 * m\<bar> / m = \<bar>y / m - d1\<bar>"
      using m by (simp add: abs_div_pos diff_divide_distrib)
    moreover have "\<bar>d1 * m\<bar> * u / m = \<bar>d1\<bar> * u"
      using m by (simp add: abs_mult)
    ultimately have "\<bar>y / m - d1\<bar> \<le> \<bar>d1\<bar> * u" by simp
    also have "\<dots> \<le> 361 * u" using bd1 u(1) by (intro mult_right_mono) simp_all
    finally show ?thesis .
  qed
  have by': "\<bar>y / m\<bar> \<le> 362" using e2 bd1 u by linarith
  have e3: "\<bar>q - y / m\<bar> \<le> 362 * u"
  proof -
    have "\<bar>q - y / m\<bar> \<le> \<bar>y / m\<bar> * u" unfolding q_def by (rule e)
    also have "\<dots> \<le> 362 * u" using by' u(1) by (intro mult_right_mono) simp_all
    finally show ?thesis .
  qed
  have bq: "\<bar>q\<bar> \<le> 363" using e3 by' u by linarith
  have bs: "\<bar>s\<bar> \<le> 543" using bq o unfolding s_def by linarith
  have e4: "\<bar>rnd s - s\<bar> \<le> 543 * u"
  proof -
    have "\<bar>rnd s - s\<bar> \<le> \<bar>s\<bar> * u" by (rule e)
    also have "\<dots> \<le> 543 * u" using bs u(1) by (intro mult_right_mono) simp_all
    finally show ?thesis .
  qed
  have "\<bar>rnd s - v\<bar> \<le> 1626 * u"
    using e1 e2 e3 e4 unfolding s_def d_def by linarith
  also have "\<dots> \<le> 1 / 10 ^ 9" using u(2) by simp
  finally show ?thesis
    unfolding s_def q_def y_def d1_def d_def .
qed

lemma METERS_PER_DEG_LON_pos: "0 < METERS_PER_DEG_LON"
proof -
  have "PHARR_LAT * pi / 180 < pi / 2" "- (pi / 2) < PHARR_LAT * pi / 180"
    by (simp_all add: PHARR_LAT_def) 
  then have "0 < cos (PHARR_LAT * pi / 180)" by (intro cos_gt_zero_pi)
  then show ?thesis by (simp add: METERS_PER_DEG_LON_def METERS_PER_DEG_LAT_def)
qed

lemma rounding_example: "rounding (\<lambda>x. x * (1 + 1 / 2 ^ 53))"
  unfolding rounding_def
proof
  fix x :: real
  have "x * (1 + 1 / 2 ^ 53) - x = x * (1 / 2 ^ 53)" by (simp add: algebra_simps)
  then show "\<bar>x * (1 + 1 / 2 ^ 53) - x\<bar> \<le> \<bar>x\<bar> / 2 ^ 53" by (simp add: abs_mult)
qed

lemma exact_round_trip:
  "inverse_affine_lat id METERS_PER_DEG_LAT (to_local_y id lat) = lat"
  "inverse_affine_lon id METERS_PER_DEG_LON (to_local_x id lon) = lon"
  using METERS_PER_DEG_LON_pos
  by (simp_all add: inverse_affine_lat_def to_local_y_def inverse_affine_lon_def to_local_x_def
      METERS_PER_DEG_LAT_def field_simps)

text \<open>
  Claim C8. For a latitude in \<open>[-90, 90]\<close> and a longitude in \<open>[-180, 180]\<close>, the inverse
  affine map applied to the output of the transform gives the coordinate back within
  \<open>10\<^sup>-\<^sup>9\<close> degrees, whatever the rounding of the four floating-point operations of the
  round trip (relative error at most \<open>2\<^sup>-\<^sup>5\<^sup>3\<close> each); in exact arithmetic it gives the
  coordinate back exactly.
\<close>

theorem transform_round_trip:
  assumes "rounding rnd" and "\<bar>lat\<bar> \<le> 90" and "\<bar>lon\<bar> \<le> 180"
  shows "\<bar>inverse_affine_lat rnd METERS_PER_DEG_LAT (to_local_y rnd lat) - lat\<bar> \<le> 1 / 10 ^ 9 \<and>
         \<bar>inverse_affine_lon rnd METERS_PER_DEG_LON (to_local_x rnd lon) - lon\<bar> \<le> 1 / 10 ^ 9"
proof
  have "\<bar>PHARR_LAT\<bar> \<le> 180" "\<bar>lat\<bar> \<le> 180" "0 < METERS_PER_DEG_LAT"
    using assms(2) by (simp_all add: PHARR_LAT_def METERS_PER_DEG_LAT_def)
  then show "\<bar>inverse_affine_lat rnd METERS_PER_DEG_LAT (to_local_y rnd lat) - lat\<bar> \<le> 1 / 10 ^ 9"
    unfolding inverse_affine_lat_def to_local_y_def
    using roundtrip_generic [OF assms(1), of METERS_PER_DEG_LAT PHARR_LAT lat] by simp
  have "\<bar>PHARR_LON\<bar> \<le> 180" by (simp add: PHARR_LON_def)
  then show "\<bar>inverse_affine_lon rnd METERS_PER_DEG_LON (to_local_x rnd lon) - lon\<bar> \<le> 1 / 10 ^ 9"
    unfolding inverse_affine_lon_def to_local_x_def
    using roundtrip_generic [OF assms(1) METERS_PER_DEG_LON_pos, of PHARR_LON lon] assms(3) by simp
qed

theorem transform_round_trip_witness:
  "rounding (\<lambda>x. x * (1 + 1 / 2 ^ 53)) \<and> \<bar>26.07 :: real\<bar> \<le> 90 \<and> \<bar>- 98.20 :: real\<bar> \<le> 180 \<and>
   \<bar>inverse_affine_lat (\<lambda>x. x * (1 + 1 / 2 ^ 53)) METERS_PER_DEG_LAT
       (to_local_y (\<lambda>x. x * (1 + 1 / 2 ^ 53)) 26.07) - 26.07\<bar> \<le> 1 / 10 ^ 9 \<and>
   \<bar>inverse_affine_lon (\<lambda>x. x * (1 + 1 / 2 ^ 53)) METERS_PER_DEG_LON
       (to_local_x (\<lambda>x. x * (1 + 1 / 2 ^ 53)) (- 98.20)) - (- 98.20)\<bar> \<le> 1 / 10 ^ 9"
proof -
  have a: "\<bar>26.07 :: real\<bar> \<le> 90" and b: "\<bar>- 98.20 :: real\<bar> \<le> 180" by simp_all
  show ?thesis
    using transform_round_trip [OF rounding_example a b] rounding_example a b by blast
qed

subsection \<open>The value of the longitude constant\<close>

text \<open>
  Bounds on the cosine from its Maclaurin polynomial with the Lagrange remainder, bounds on
  \<open>\<pi>\<close> from the sign of the cosine near \<open>\<pi> / 2\<close>, and from them
  \<open>99996.8787 < METERS_PER_DEG_LON < 99996.8790\<close>.
\<close>

lemma cos_taylor: "\<bar>cos x - (\<Sum>m<n. cos_coeff m * x ^ m)\<bar> \<le> \<bar>x\<bar> ^ n / fact n"
proof -
  obtain t where t: "cos x = (\<Sum>m<n. cos_coeff m * x ^ m) + (cos (t + 1/2 * real n * pi) / fact n) * x ^ n"
    using Maclaurin_cos_expansion [of x n] by blast
  have "\<bar>cos x - (\<Sum>m<n. cos_coeff m * x ^ m)\<bar> = \<bar>cos (t + 1/2 * real n * pi)\<bar> * (\<bar>x\<bar> ^ n / fact n)"
    by (simp add: t abs_mult power_abs)
  also have "\<dots> \<le> 1 * (\<bar>x\<bar> ^ n / fact n)"
    by (rule mult_right_mono) simp_all
  finally show ?thesis by simp
qed

lemma sum10: "(\<Sum>m<(10::nat). f m) = f 0 + f 1 + f 2 + f 3 + f 4 + f 5 + f 6 + f 7 + f 8 + (f 9 :: real)"
  by (simp add: eval_nat_numeral)

lemma sum16: "(\<Sum>m<(16::nat). f m) = f 0 + f 1 + f 2 + f 3 + f 4 + f 5 + f 6 + f 7 + f 8 + f 9
    + f 10 + f 11 + f 12 + f 13 + f 14 + (f 15 :: real)"
  by (simp add: eval_nat_numeral)

lemma poly16: "(\<Sum>m<16. cos_coeff m * x ^ m) =
   1 - x^2 / 2 + x^4 / 24 - x^6 / 720 + x^8 / 40320 - x^10 / 3628800 + x^12 / 479001600 - x^14 / 87178291200"
  by (simp add: sum16 cos_coeff_def fact_numeral)

lemma poly10: "(\<Sum>m<10. cos_coeff m * x ^ m) =
   1 - x^2 / 2 + x^4 / 24 - x^6 / 720 + x^8 / 40320"
  by (simp add: sum10 cos_coeff_def fact_numeral)

lemma fact16: "fact 16 = (20922789888000 :: real)"
  by (simp add: fact_numeral)

lemma fact10: "fact 10 = (3628800 :: real)"
  by (simp add: fact_numeral)

lemma cos_a_pos: "0 < cos (1570796325 / 1000000000 :: real)"
proof -
  let ?a = "1570796325 / 1000000000 :: real"
  have "\<bar>cos ?a - (\<Sum>m<16. cos_coeff m * ?a ^ m)\<bar> \<le> \<bar>?a\<bar> ^ 16 / fact 16"
    by (rule cos_taylor)
  then have "(\<Sum>m<16. cos_coeff m * ?a ^ m) - \<bar>?a\<bar> ^ 16 / fact 16 \<le> cos ?a" by linarith
  moreover have "0 < (\<Sum>m<16. cos_coeff m * ?a ^ m) - \<bar>?a\<bar> ^ 16 / fact 16"
    unfolding poly16 fact16 by (simp add: power_divide)
  ultimately show ?thesis by linarith
qed

lemma cos_b_neg: "cos (157079633 / 100000000 :: real) < 0"
proof -
  let ?b = "157079633 / 100000000 :: real"
  have "\<bar>cos ?b - (\<Sum>m<16. cos_coeff m * ?b ^ m)\<bar> \<le> \<bar>?b\<bar> ^ 16 / fact 16"
    by (rule cos_taylor)
  then have "cos ?b \<le> (\<Sum>m<16. cos_coeff m * ?b ^ m) + \<bar>?b\<bar> ^ 16 / fact 16" by linarith
  moreover have "(\<Sum>m<16. cos_coeff m * ?b ^ m) + \<bar>?b\<bar> ^ 16 / fact 16 < 0"
    unfolding poly16 fact16 by (simp add: power_divide)
  ultimately show ?thesis by linarith
qed

lemma pi_lower: "314159265 / 100000000 < pi"
proof (rule ccontr)
  assume "\<not> 314159265 / 100000000 < pi"
  then have le: "pi / 2 \<le> 1570796325 / 1000000000" by simp
  have "cos (1570796325 / 1000000000) \<le> cos (pi / 2)"
    using le pi_ge_two by (intro cos_monotone_0_pi_le) simp_all
  with cos_a_pos show False by simp
qed

lemma pi_upper: "pi < 314159266 / 100000000"
proof (rule ccontr)
  assume "\<not> pi < 314159266 / 100000000"
  then have "157079633 / 100000000 \<le> pi / 2" by simp
  then have "0 \<le> cos (157079633 / 100000000 :: real)"
    by (intro cos_ge_zero) simp_all
  with cos_b_neg show False by simp
qed


lemma cos_mono_bracket:
  fixes x xl xh :: real
  assumes "0 \<le> xl" "xl \<le> x" "x \<le> xh" "xh \<le> 2"
  shows "cos xh \<le> cos x" "cos x \<le> cos xl"
proof -
  have "xh \<le> pi" using assms(4) pi_ge_two by linarith
  then show "cos xh \<le> cos x" using assms by (intro cos_monotone_0_pi_le) linarith+
  have "x \<le> pi" using assms pi_ge_two by linarith
  then show "cos x \<le> cos xl" using assms by (intro cos_monotone_0_pi_le) linarith+
qed


lemma x0_bracket:
  "454949687 / 1000000000 \<le> PHARR_LAT * pi / 180" "PHARR_LAT * pi / 180 \<le> 454949689 / 1000000000"
proof -
  have "454949687 / 1000000000 \<le> PHARR_LAT * (314159265 / 100000000) / 180" by (simp add: PHARR_LAT_def)
  also have "\<dots> \<le> PHARR_LAT * pi / 180" using pi_lower by (simp add: PHARR_LAT_def)
  finally show "454949687 / 1000000000 \<le> PHARR_LAT * pi / 180" .
  have "PHARR_LAT * pi / 180 \<le> PHARR_LAT * (314159266 / 100000000) / 180" using pi_upper by (simp add: PHARR_LAT_def)
  also have "\<dots> \<le> 454949689 / 1000000000" by (simp add: PHARR_LAT_def)
  finally show "PHARR_LAT * pi / 180 \<le> 454949689 / 1000000000" .
qed

lemma cos_x0_bounds:
  "99996.8787 < 111320 * cos (PHARR_LAT * pi / 180)" "111320 * cos (PHARR_LAT * pi / 180) < 99996.8790"
proof -
  let ?xl = "454949687 / 1000000000 :: real" and ?xh = "454949689 / 1000000000 :: real"
  have m: "cos ?xh \<le> cos (PHARR_LAT * pi / 180)" "cos (PHARR_LAT * pi / 180) \<le> cos ?xl"
    using cos_mono_bracket [OF _ x0_bracket] by simp_all
  have "\<bar>cos ?xh - (\<Sum>m<10. cos_coeff m * ?xh ^ m)\<bar> \<le> \<bar>?xh\<bar> ^ 10 / fact 10"
    by (rule cos_taylor)
  then have "(\<Sum>m<10. cos_coeff m * ?xh ^ m) - \<bar>?xh\<bar> ^ 10 / fact 10 \<le> cos ?xh" by linarith
  moreover have "99996.8787 / 111320 < (\<Sum>m<10. cos_coeff m * ?xh ^ m) - \<bar>?xh\<bar> ^ 10 / fact 10"
    unfolding poly10 fact10 by (simp add: power_divide)
  ultimately have "99996.8787 / 111320 < cos (PHARR_LAT * pi / 180)" using m(1) by linarith
  then show "99996.8787 < 111320 * cos (PHARR_LAT * pi / 180)" by (simp add: field_simps)
  have "\<bar>cos ?xl - (\<Sum>m<10. cos_coeff m * ?xl ^ m)\<bar> \<le> \<bar>?xl\<bar> ^ 10 / fact 10"
    by (rule cos_taylor)
  then have "cos ?xl \<le> (\<Sum>m<10. cos_coeff m * ?xl ^ m) + \<bar>?xl\<bar> ^ 10 / fact 10" by linarith
  moreover have "(\<Sum>m<10. cos_coeff m * ?xl ^ m) + \<bar>?xl\<bar> ^ 10 / fact 10 < 99996.8790 / 111320"
    unfolding poly10 fact10 by (simp add: power_divide)
  ultimately have "cos (PHARR_LAT * pi / 180) < 99996.8790 / 111320" using m(2) by linarith
  then show "111320 * cos (PHARR_LAT * pi / 180) < 99996.8790" by (simp add: field_simps)
qed

lemma METERS_PER_DEG_LON_bounds: "99996.8787 < METERS_PER_DEG_LON" "METERS_PER_DEG_LON < 99996.8790"
  using cos_x0_bounds by (simp_all add: METERS_PER_DEG_LON_def METERS_PER_DEG_LAT_def)

lemma py_round_METERS_PER_DEG_LON: "py_round METERS_PER_DEG_LON 2 = 99996.88"
proof -
  have f: "\<lfloor>METERS_PER_DEG_LON * 10 ^ 2\<rfloor> = 9999687"
    using METERS_PER_DEG_LON_bounds by (intro floor_unique) simp_all
  have "1 / 2 < METERS_PER_DEG_LON * 10 ^ 2 - of_int (9999687 :: int)"
    using METERS_PER_DEG_LON_bounds by simp
  then show ?thesis
    unfolding py_round_def Let_def f by simp
qed

subsection \<open>The serialised constant\<close>

lemma compute_stats_point:
  "compute_stats rnd (build_lots_json si pn today [example_point_feature] src) = Inr st \<Longrightarrow>
   x_range_m st = (to_local_x rnd (PHARR_LON + 1), to_local_x rnd (PHARR_LON + 1))"
  by (auto simp: compute_stats_def build_lots_json_def Let_def example_point_feature_def stat_coords_def)

lemma serialized_value:
  "meters_per_deg_lon (transform (build_lots_json si pn today raw_lots src)) = py_round METERS_PER_DEG_LON 2"
  by (simp add: build_lots_json_def Let_def)

lemma rounded_constant_differs:
  assumes r: "rounding rnd"
  shows "to_local_x rnd (PHARR_LON + 1) < rnd (rnd (PHARR_LON + 1 - PHARR_LON) * 99996.88)"
    and "inverse_affine_lon rnd 99996.88 (to_local_x rnd (PHARR_LON + 1)) < PHARR_LON + 1"
proof -
  define u :: real where "u = 1 / 2 ^ 53"
  have u: "0 < u" "u \<le> 1 / 1000000000000000" by (simp_all add: u_def)
  have e: "\<bar>rnd x - x\<bar> \<le> \<bar>x\<bar> * u" for x
    using rounding_abs [OF r, of x] by (simp add: u_def)
  have e': "\<bar>rnd x - x\<bar> \<le> b * u" if "\<bar>x\<bar> \<le> b" for x b
  proof -
    have "\<bar>x\<bar> * u \<le> b * u" using that u(1) by (intro mult_right_mono) simp_all
    with e [of x] show ?thesis by linarith
  qed
  define M where "M = METERS_PER_DEG_LON"
  have M: "99996.8787 < M" "M < 99996.8790"
    using METERS_PER_DEG_LON_bounds by (simp_all add: M_def)
  define d1 where "d1 = rnd (PHARR_LON + 1 - PHARR_LON)"
  have "\<bar>d1 - 1\<bar> \<le> 1 * u" unfolding d1_def using e' [of 1 1] by simp
  then have d1: "1 - 1 / 1000000000000000 \<le> d1" "d1 \<le> 1 + 1 / 1000000000000000"
    using u(2) by (simp_all add: abs_le_iff)
  then have d1pos: "0 < d1" by linarith
  define x where "x = rnd (d1 * M)"
  have "d1 * M \<le> (1 + 1 / 1000000000000000) * 99996.8790"
  proof (rule mult_mono)
    show "d1 \<le> 1 + 1 / 1000000000000000" by (rule d1(2))
    show "M \<le> 99996.8790" using M(2) by simp
    show "(0::real) \<le> 1 + 1 / 1000000000000000" by simp
    show "0 \<le> M" using M(1) by simp
  qed
  then have dM1: "d1 * M \<le> 99996.87900001" by simp
  have "(1 - 1 / 1000000000000000) * 99996.8787 \<le> d1 * M"
  proof (rule mult_mono)
    show "1 - 1 / 1000000000000000 \<le> d1" by (rule d1(1))
    show "99996.8787 \<le> M" using M(1) by simp
    show "0 \<le> d1" using d1pos by simp
    show "(0::real) \<le> 99996.8787" by simp
  qed
  then have dM2: "99996.8786 \<le> d1 * M" by simp
  have "\<bar>d1 * M\<bar> \<le> 100000" using dM1 dM2 by (simp add: abs_le_iff)
  then have "\<bar>x - d1 * M\<bar> \<le> 100000 * u" unfolding x_def by (rule e')
  then have xb: "x \<le> 99996.87901" "99996 \<le> x"
    using dM1 dM2 u(2) by (simp_all add: abs_le_iff)
  show "to_local_x rnd (PHARR_LON + 1) < rnd (rnd (PHARR_LON + 1 - PHARR_LON) * 99996.88)"
  proof -
    define x' where "x' = rnd (d1 * 99996.88)"
    have "\<bar>d1 * 99996.88\<bar> \<le> 100000" using d1 by (simp add: abs_le_iff)
    then have "\<bar>x' - d1 * 99996.88\<bar> \<le> 100000 * u" unfolding x'_def by (rule e')
    then have "99996.8795 \<le> x'" using d1(1) u(2) by (simp add: abs_le_iff)
    with xb(1) have "x < x'" by simp
    then show ?thesis by (simp add: to_local_x_def x_def x'_def d1_def M_def)
  qed
  show "inverse_affine_lon rnd 99996.88 (to_local_x rnd (PHARR_LON + 1)) < PHARR_LON + 1"
  proof -
    define q where "q = rnd (x / 99996.88)"
    define s where "s = q + PHARR_LON"
    have xq: "x / 99996.88 \<le> 0.9999999903" "0.99999 \<le> x / 99996.88"
      using xb by simp_all
    then have "\<bar>x / 99996.88\<bar> \<le> 1" by (simp add: abs_le_iff)
    then have "\<bar>q - x / 99996.88\<bar> \<le> 1 * u" unfolding q_def by (rule e')
    then have q: "q \<le> 0.9999999904" "0.9999 \<le> q" using xq u(2) by (simp_all add: abs_le_iff)
    then have "\<bar>s\<bar> \<le> 100" by (simp add: s_def PHARR_LON_def abs_le_iff)
    then have "\<bar>rnd s - s\<bar> \<le> 100 * u" by (rule e')
    then have "rnd s < PHARR_LON + 1" using q(1) u(2) by (simp add: s_def abs_le_iff)
    then show ?thesis by (simp add: inverse_affine_lon_def to_local_x_def s_def q_def x_def d1_def M_def)
  qed
qed

lemma rounding_id: "rounding id"
  by (simp add: rounding_def)

text \<open>
  Claim C10. The \<^verbatim>\<open>meters_per_deg_lon\<close> of the transform block of every document is
  \<^verbatim>\<open>round(METERS_PER_DEG_LON, 2)\<close>, which is \<open>99996.88\<close> and is larger than the constant itself,
  while \<^verbatim>\<open>compute_stats\<close> multiplies by the constant itself. For the document with one
  point one degree east of the origin, and for every rounding of the floating-point
  operations, the x value of the statistics is not the one computed with the serialised
  constant, and the inverse map with the serialised constant does not give the longitude
  of the point back from it.
\<close>

theorem serialized_constant_is_rounded:
  "meters_per_deg_lon (transform (build_lots_json si pn today raw_lots src)) =
     py_round METERS_PER_DEG_LON 2 \<and>
   py_round METERS_PER_DEG_LON 2 = 99996.88 \<and>
   METERS_PER_DEG_LON < 99996.88 \<and>
   (rounding rnd \<longrightarrow>
      (\<exists>st. compute_stats rnd (build_lots_json si pn today [example_point_feature] src) = Inr st \<and>
            x_range_m st = (to_local_x rnd (PHARR_LON + 1), to_local_x rnd (PHARR_LON + 1)) \<and>
            rnd (rnd (PHARR_LON + 1 - PHARR_LON) *
                 meters_per_deg_lon (transform (build_lots_json si pn today [example_point_feature] src)))
              \<noteq> fst (x_range_m st) \<and>
            inverse_affine_lon rnd
                 (meters_per_deg_lon (transform (build_lots_json si pn today [example_point_feature] src)))
                 (fst (x_range_m st))
              \<noteq> PHARR_LON + 1))"
proof (intro conjI impI)
  show "meters_per_deg_lon (transform (build_lots_json si pn today raw_lots src)) =
     py_round METERS_PER_DEG_LON 2" by (rule serialized_value)
  show "py_round METERS_PER_DEG_LON 2 = 99996.88" by (rule py_round_METERS_PER_DEG_LON)
  show "METERS_PER_DEG_LON < 99996.88" using METERS_PER_DEG_LON_bounds(2) by simp
next
  assume r: "rounding rnd"
  let ?D = "build_lots_json si pn today [example_point_feature] src"
  obtain st where st: "compute_stats rnd ?D = Inr st" using compute_stats_total by blast
  have x: "x_range_m st = (to_local_x rnd (PHARR_LON + 1), to_local_x rnd (PHARR_LON + 1))"
    using st by (rule compute_stats_point)
  have m: "meters_per_deg_lon (transform ?D) = 99996.88"
    by (simp only: serialized_value py_round_METERS_PER_DEG_LON)
  show "\<exists>st. compute_stats rnd ?D = Inr st \<and>
            x_range_m st = (to_local_x rnd (PHARR_LON + 1), to_local_x rnd (PHARR_LON + 1)) \<and>
            rnd (rnd (PHARR_LON + 1 - PHARR_LON) * meters_per_deg_lon (transform ?D)) \<noteq> fst (x_range_m st) \<and>
            inverse_affine_lon rnd (meters_per_deg_lon (transform ?D)) (fst (x_range_m st)) \<noteq> PHARR_LON + 1"
  proof (intro exI conjI)
    show "compute_stats rnd ?D = Inr st" by (rule st)
    show "x_range_m st = (to_local_x rnd (PHARR_LON + 1), to_local_x rnd (PHARR_LON + 1))" by (rule x)
    show "rnd (rnd (PHARR_LON + 1 - PHARR_LON) * meters_per_deg_lon (transform ?D)) \<noteq> fst (x_range_m st)"
      using rounded_constant_differs(1) [OF r] unfolding m x by simp
    show "inverse_affine_lon rnd (meters_per_deg_lon (transform ?D)) (fst (x_range_m st)) \<noteq> PHARR_LON + 1"
      using rounded_constant_differs(2) [OF r] unfolding m x by simp
  qed
qed

theorem serialized_constant_is_rounded_witness:
  "rounding id \<and>
   meters_per_deg_lon (transform (build_lots_json remdups id ''2024-01-01'' [example_point_feature] ''in.kmz''))
     = 99996.88 \<and>
   (\<exists>st. compute_stats id (build_lots_json remdups id ''2024-01-01'' [example_point_feature] ''in.kmz'') = Inr st \<and>
         fst (x_range_m st) = METERS_PER_DEG_LON \<and>
         inverse_affine_lon id 99996.88 (fst (x_range_m st)) \<noteq> PHARR_LON + 1)"
proof -
  let ?D = "build_lots_json remdups id ''2024-01-01'' [example_point_feature] ''in.kmz''"
  note T = serialized_constant_is_rounded
    [of remdups id "''2024-01-01''" "[example_point_feature]" "''in.kmz''" id]
  have t: "to_local_x id (PHARR_LON + 1) = METERS_PER_DEG_LON" by (simp add: to_local_x_def)
  from T have a: "meters_per_deg_lon (transform ?D) = py_round METERS_PER_DEG_LON 2"
    and b: "py_round METERS_PER_DEG_LON 2 = 99996.88" by blast+
  have m: "meters_per_deg_lon (transform ?D) = 99996.88" by (simp only: a b)
  from T rounding_id obtain st where st: "compute_stats id ?D = Inr st"
    "x_range_m st = (to_local_x id (PHARR_LON + 1), to_local_x id (PHARR_LON + 1))"
    "inverse_affine_lon id (meters_per_deg_lon (transform ?D)) (fst (x_range_m st)) \<noteq> PHARR_LON + 1"
    by blast
  have "fst (x_range_m st) = METERS_PER_DEG_LON" using st(2) t by simp
  moreover have "inverse_affine_lon id 99996.88 (fst (x_range_m st)) \<noteq> PHARR_LON + 1"
    using st(3) unfolding m .
  ultimately show ?thesis using rounding_id m st(1) by blast
qed

end
